theory Spec2Isabelle
  imports Main "HOL-Library.AList"
begin

section \<open>JavaScript values, exceptions and host objects\<close>

text \<open>
  The plugin runs inside a host sandbox. The transport (\<open>http.GET\<close>, \<open>http.POST\<close>,
  \<open>http.request\<close>) answers with an object exposing \<open>isOk\<close>, \<open>code\<close> and \<open>body\<close>.
\<close>

record response =
  isOk :: bool
  code :: int
  body :: string

text \<open>
  Values of type \<open>any\<close>: the JSON fragment of JavaScript (numbers restricted to integers),
  \<open>undefined\<close>, and the two host objects that \<open>_fetch\<close> can return (a parsed document,
  named by the handle the host parser issued, and a raw transport response).
  Objects are association lists in property order.
\<close>

datatype js_value =
    Undefined
  | Null
  | Bool bool
  | Number int
  | Str string
  | Array "js_value list"
  | Object "(string \<times> js_value) list"
  | Document nat
  | Response response

text \<open>
  A thrown value. Every exception of the program is an \<open>Error\<close> instance with a message:
  \<open>ScriptException(kind, message)\<close> of the host, or a native \<open>TypeError\<close> /
  \<open>SyntaxError\<close>, whose \<open>kind\<close> is the class name.
\<close>

record js_error =
  kind :: string
  message :: string

type_synonym headers = "(string \<times> string) list"

text \<open>The three transport entry points with the arguments the source passes.\<close>

datatype transport_call =
    GET string headers bool
  | POST string string headers bool
  | REQUEST string string string headers bool

text \<open>
  What the host provides. \<open>http i c\<close> is the outcome of transport call \<open>c\<close> when \<open>i\<close>
  transport calls were made before it (\<open>Inl\<close>: the transport threw). The built-ins
  \<open>JSON.parse\<close>, \<open>JSON.stringify\<close>, \<open>URLSearchParams.toString\<close>, the DOM parser and the
  result of \<open>getBaseUrl()\<close> are parameters as well; \<open>defaultHeaders\<close> is
  \<open>plugin.config?.constants?.defaultHeaders\<close>.
\<close>

record host =
  defaultHeaders :: "headers option"
  http :: "nat \<Rightarrow> transport_call \<Rightarrow> js_error + response"
  JSON_parse :: "string \<Rightarrow> js_error + js_value"
  JSON_stringify :: "js_value \<Rightarrow> string"
  parseFromString :: "string \<Rightarrow> js_error + js_value"
  URLSearchParams_toString :: "(string \<times> string) list \<Rightarrow> js_error + string"
  getBaseUrl :: "js_error + string"

text \<open>
  The observable effects: the transport calls made, the blocking waits (their length in
  milliseconds) and the texts handed to the DOM parser, each in order.
\<close>

record world =
  calls :: "transport_call list"
  waits :: "int list"
  parsed :: "string list"

section \<open>Language primitives used by the source\<close>

fun truthy :: "js_value \<Rightarrow> bool" where
  "truthy Undefined = False"
| "truthy Null = False"
| "truthy (Bool b) = b"
| "truthy (Number n) = (n \<noteq> 0)"
| "truthy (Str s) = (s \<noteq> [])"
| "truthy (Array xs) = True"
| "truthy (Object kvs) = True"
| "truthy (Document d) = True"
| "truthy (Response r) = True"

definition TypeError_read :: "string \<Rightarrow> string \<Rightarrow> js_error" where
  "TypeError_read what p =
     \<lparr>kind = ''TypeError'',
      message = ''Cannot read properties of '' @ what @ '' (reading '' @ [CHR 0x27] @ p @ [CHR 0x27] @ '')''\<rparr>"

text \<open>
  Property read \<open>v.p\<close>. Reading from \<open>null\<close> or \<open>undefined\<close> throws; a missing property
  is \<open>undefined\<close>. The source reads only \<open>errors\<close>, \<open>data\<close> and \<open>message\<close> from
  values of type \<open>any\<close>, which primitives, arrays and documents do not carry.
\<close>

fun get_prop :: "js_value \<Rightarrow> string \<Rightarrow> js_error + js_value" where
  "get_prop Undefined p = Inl (TypeError_read ''undefined'' p)"
| "get_prop Null p = Inl (TypeError_read ''null'' p)"
| "get_prop (Object kvs) p = Inr (case map_of kvs p of None \<Rightarrow> Undefined | Some v \<Rightarrow> v)"
| "get_prop (Response r) p =
     Inr (if p = ''isOk'' then Bool (isOk r)
          else if p = ''code'' then Number (code r)
          else if p = ''body'' then Str (body r)
          else Undefined)"
| "get_prop v p = Inr Undefined"

fun digits :: "nat \<Rightarrow> string" where
  "digits n = (if n < 10 then [''0123456789'' ! n]
               else digits (n div 10) @ [''0123456789'' ! (n mod 10)])"

declare digits.simps [simp del]

definition show_int :: "int \<Rightarrow> string" where
  "show_int i = (if i < 0 then ''-'' @ digits (nat (- i)) else digits (nat i))"

definition upper_char :: "char \<Rightarrow> char" where
  "upper_char c =
     (case map_of (zip ''abcdefghijklmnopqrstuvwxyz'' ''ABCDEFGHIJKLMNOPQRSTUVWXYZ'') c of
        None \<Rightarrow> c | Some u \<Rightarrow> u)"

definition toUpperCase :: "string \<Rightarrow> string" where
  "toUpperCase s = map upper_char s"

fun startsWith :: "string \<Rightarrow> string \<Rightarrow> bool" where
  "startsWith s [] = True"
| "startsWith [] (p # ps) = False"
| "startsWith (c # cs) (p # ps) = (c = p \<and> startsWith cs ps)"

fun includes_str :: "string \<Rightarrow> string \<Rightarrow> bool" where
  "includes_str [] t = (t = [])"
| "includes_str (c # cs) t = (startsWith (c # cs) t \<or> includes_str cs t)"

fun join :: "string \<Rightarrow> string list \<Rightarrow> string" where
  "join sep [] = []"
| "join sep [x] = x"
| "join sep (x # y # ys) = x @ sep @ join sep (y # ys)"

text \<open>\<open>ToString\<close>, as \<open>Array.prototype.join\<close> applies it to the elements.\<close>

fun js_toString :: "js_value \<Rightarrow> string" where
  "js_toString Undefined = ''undefined''"
| "js_toString Null = ''null''"
| "js_toString (Bool b) = (if b then ''true'' else ''false'')"
| "js_toString (Number n) = show_int n"
| "js_toString (Str s) = s"
| "js_toString (Array xs) =
     join '','' (map (\<lambda>x. if x = Undefined \<or> x = Null then [] else js_toString x) xs)"
| "js_toString (Object kvs) = ''[object Object]''"
| "js_toString (Document d) = ''[object Object]''"
| "js_toString (Response r) = ''[object Object]''"

definition array_join :: "string \<Rightarrow> js_value list \<Rightarrow> string" where
  "array_join sep xs =
     join sep (map (\<lambda>x. if x = Undefined \<or> x = Null then [] else js_toString x) xs)"

text \<open>Object spread \<open>{...a, ...b}\<close>: the properties of \<open>a\<close>, overwritten and extended by those of \<open>b\<close>.\<close>

definition spread :: "('k \<times> 'v) list \<Rightarrow> ('k \<times> 'v) list \<Rightarrow> ('k \<times> 'v) list" where
  "spread a b = fold (\<lambda>(k, v). AList.update k v) b a"

section \<open>The request executor\<close>

record FetchOptions =
  "method" :: "string option"
  headers :: "headers option"
  data :: js_value
  useAuth :: "bool option"
  retries :: "int option"
  retryDelay :: "int option"
  parseJson :: "bool option"
  parseHtml :: "bool option"
  throwOnError :: "bool option"

text \<open>
  An optional property is \<open>None\<close> when the caller leaves it out (\<open>data\<close>, of type
  \<open>any\<close>, is then \<open>Undefined\<close>); \<open>retries\<close> and \<open>retryDelay\<close> are integers, possibly
  negative. The interface also declares \<open>query\<close> and \<open>variables\<close>, which no function
  reads. The options object \<open>{}\<close>:
\<close>

definition no_options :: FetchOptions where
  "no_options =
     \<lparr>method = None, headers = None, data = Undefined, useAuth = None, retries = None,
      retryDelay = None, parseJson = None, parseHtml = None, throwOnError = None\<rparr>"

text \<open>The destructuring defaults of \<open>_fetch\<close>.\<close>

definition opt_method :: "FetchOptions \<Rightarrow> string" where
  "opt_method options = (case method options of None \<Rightarrow> ''GET'' | Some m \<Rightarrow> m)"

definition opt_customHeaders :: "FetchOptions \<Rightarrow> headers" where
  "opt_customHeaders options = (case headers options of None \<Rightarrow> [] | Some hs \<Rightarrow> hs)"

definition opt_data :: "FetchOptions \<Rightarrow> js_value" where
  "opt_data options = (if data options = Undefined then Null else data options)"

definition opt_useAuth :: "FetchOptions \<Rightarrow> bool" where
  "opt_useAuth options = (case useAuth options of None \<Rightarrow> False | Some b \<Rightarrow> b)"

definition opt_retries :: "FetchOptions \<Rightarrow> int" where
  "opt_retries options = (case retries options of None \<Rightarrow> 3 | Some n \<Rightarrow> n)"

definition opt_retryDelay :: "FetchOptions \<Rightarrow> int" where
  "opt_retryDelay options = (case retryDelay options of None \<Rightarrow> 1000 | Some n \<Rightarrow> n)"

definition opt_parseJson :: "FetchOptions \<Rightarrow> bool" where
  "opt_parseJson options = (case parseJson options of None \<Rightarrow> False | Some b \<Rightarrow> b)"

definition opt_parseHtml :: "FetchOptions \<Rightarrow> bool" where
  "opt_parseHtml options = (case parseHtml options of None \<Rightarrow> False | Some b \<Rightarrow> b)"

definition opt_throwOnError :: "FetchOptions \<Rightarrow> bool" where
  "opt_throwOnError options = (case throwOnError options of None \<Rightarrow> True | Some b \<Rightarrow> b)"

text \<open>\<open>const headers = { ...defaultHeaders, ...customHeaders }\<close>\<close>

definition merged_headers :: "host \<Rightarrow> FetchOptions \<Rightarrow> headers" where
  "merged_headers h options =
     spread (case defaultHeaders h of None \<Rightarrow> [] | Some d \<Rightarrow> d) (opt_customHeaders options)"

text \<open>\<open>const body = data ? (typeof data === 'string' ? data : JSON.stringify(data)) : ''\<close>\<close>

definition serialize_body :: "host \<Rightarrow> js_value \<Rightarrow> string" where
  "serialize_body h d =
     (if truthy d then (case d of Str s \<Rightarrow> s | _ \<Rightarrow> JSON_stringify h d) else [])"

definition dispatch :: "host \<Rightarrow> string \<Rightarrow> FetchOptions \<Rightarrow> transport_call" where
  "dispatch h url options =
     (let upperMethod = toUpperCase (opt_method options);
          body = serialize_body h (opt_data options)
      in if upperMethod = ''GET'' then GET url (merged_headers h options) (opt_useAuth options)
         else if upperMethod = ''POST''
         then POST url body (merged_headers h options) (opt_useAuth options)
         else REQUEST upperMethod url body (merged_headers h options) (opt_useAuth options))"

definition transport :: "host \<Rightarrow> transport_call \<Rightarrow> world \<Rightarrow> (js_error + response) \<times> world" where
  "transport h c w = (http h (length (calls w)) c, w\<lparr>calls := calls w @ [c]\<rparr>)"

text \<open>
  The busy wait \<open>while (Date.now() - start < retryDelay) {}\<close> is recorded as one blocking
  wait of \<open>retryDelay\<close> milliseconds; the clock itself is not modelled.
\<close>

definition busy_wait :: "int \<Rightarrow> world \<Rightarrow> world" where
  "busy_wait ms w = w\<lparr>waits := waits w @ [ms]\<rparr>"

text \<open>
  One pass through the \<open>try\<close> block of the retry loop: \<open>Inr v\<close> when the block returns
  \<open>v\<close>, \<open>Inl e\<close> when it throws \<open>e\<close> (which the \<open>catch\<close> of the loop receives).
\<close>

definition attempt :: "host \<Rightarrow> string \<Rightarrow> FetchOptions \<Rightarrow> world \<Rightarrow> (js_error + js_value) \<times> world" where
  "attempt h url options w =
     (case transport h (dispatch h url options) w of
        (Inl thrown, w1) \<Rightarrow> (Inl thrown, w1)
      | (Inr response, w1) \<Rightarrow>
          if \<not> isOk response then
            (if opt_throwOnError options
             then (Inl \<lparr>kind = ''NetworkError'',
                        message = ''Request to '' @ url @ '' failed with status ''
                                  @ show_int (code response)\<rparr>, w1)
             else (Inr Null, w1))
          else if opt_parseJson options then
            (case JSON_parse h (body response) of
               Inl thrown \<Rightarrow> (Inl thrown, w1)
             | Inr jsonData \<Rightarrow>
                 (case get_prop jsonData ''errors'' of
                    Inl thrown \<Rightarrow> (Inl thrown, w1)
                  | Inr errs \<Rightarrow>
                      if truthy errs
                      then (Inl \<lparr>kind = ''APIError'', message = JSON_stringify h errs\<rparr>, w1)
                      else (Inr jsonData, w1)))
          else if opt_parseHtml options then
            (case parseFromString h (body response) of
               Inl thrown \<Rightarrow> (Inl thrown, w1\<lparr>parsed := parsed w1 @ [body response]\<rparr>)
             | Inr doc \<Rightarrow> (Inr doc, w1\<lparr>parsed := parsed w1 @ [body response]\<rparr>))
          else (Inr (Response response), w1))"

text \<open>
  The \<open>while (attempts > 0)\<close> loop with its \<open>catch\<close> block, followed by the code after
  the loop.
\<close>

function retry_loop ::
  "host \<Rightarrow> string \<Rightarrow> FetchOptions \<Rightarrow> int \<Rightarrow> js_error option \<Rightarrow> world \<Rightarrow> (js_error + js_value) \<times> world"
where
  "retry_loop h url options attempts lastError w =
     (if attempts > 0 then
        (case attempt h url options w of
           (Inr v, w1) \<Rightarrow> (Inr v, w1)
         | (Inl error, w1) \<Rightarrow>
             retry_loop h url options (attempts - 1) (Some error)
               (if attempts - 1 > 0 \<and> opt_retryDelay options > 0
                then busy_wait (opt_retryDelay options) w1 else w1))
      else if opt_throwOnError options then
        (Inl \<lparr>kind = ''NetworkError'',
              message = ''Request to '' @ url @ '' failed after ''
                        @ show_int (opt_retries options + 1) @ '' attempts: ''
                        @ (case lastError of
                             None \<Rightarrow> ''Unknown error''
                           | Some e \<Rightarrow> if message e = [] then ''Unknown error'' else message e)\<rparr>,
         w)
      else (Inr Null, w))"
  by pat_completeness auto
termination
  by (relation "measure (\<lambda>(h, url, options, attempts, lastError, w). nat attempts)") auto

declare retry_loop.simps [simp del]

text \<open>The source's \<open>_fetch\<close>.\<close>

definition internal_fetch :: "host \<Rightarrow> string \<Rightarrow> FetchOptions \<Rightarrow> world \<Rightarrow> (js_error + js_value) \<times> world" where
  "internal_fetch h url options w = retry_loop h url options (opt_retries options + 1) None w"

text \<open>The convenience wrappers used by the GraphQL layer, and the HTML variants.\<close>

definition fetchJson :: "host \<Rightarrow> string \<Rightarrow> FetchOptions \<Rightarrow> world \<Rightarrow> (js_error + js_value) \<times> world" where
  "fetchJson h url options w =
     (let headers' = spread [(''Accept'', ''application/json'')]
                       (case headers options of None \<Rightarrow> [] | Some hs \<Rightarrow> hs)
      in internal_fetch h url (options\<lparr>headers := Some headers', parseJson := Some True\<rparr>) w)"

definition getJson :: "host \<Rightarrow> string \<Rightarrow> FetchOptions \<Rightarrow> world \<Rightarrow> (js_error + js_value) \<times> world" where
  "getJson h url options w = fetchJson h url (options\<lparr>method := Some ''GET''\<rparr>) w"

definition postJson ::
  "host \<Rightarrow> string \<Rightarrow> js_value \<Rightarrow> FetchOptions \<Rightarrow> world \<Rightarrow> (js_error + js_value) \<times> world" where
  "postJson h url d options w =
     (let headers' = spread [(''Content-Type'', ''application/json'')]
                       (case headers options of None \<Rightarrow> [] | Some hs \<Rightarrow> hs)
      in fetchJson h url (options\<lparr>headers := Some headers', method := Some ''POST'', data := d\<rparr>) w)"

definition fetchHtml :: "host \<Rightarrow> string \<Rightarrow> FetchOptions \<Rightarrow> world \<Rightarrow> (js_error + js_value) \<times> world" where
  "fetchHtml h url options w = internal_fetch h url (options\<lparr>parseHtml := Some True\<rparr>) w"

definition getHtml :: "host \<Rightarrow> string \<Rightarrow> FetchOptions \<Rightarrow> world \<Rightarrow> (js_error + js_value) \<times> world" where
  "getHtml h url options w =
     internal_fetch h url (options\<lparr>method := Some ''GET'', parseHtml := Some True\<rparr>) w"

definition fetchGraphQL ::
  "host \<Rightarrow> string \<Rightarrow> string \<Rightarrow> (string \<times> js_value) list \<Rightarrow> FetchOptions \<Rightarrow> world
     \<Rightarrow> (js_error + js_value) \<times> world" where
  "fetchGraphQL h endpoint q vars options w =
     (let payload = Object [(''query'', Str q), (''variables'', Object vars)];
          headers' = spread [(''Content-Type'', ''application/json'')]
                       (case headers options of None \<Rightarrow> [] | Some hs \<Rightarrow> hs)
      in case internal_fetch h endpoint
                (options\<lparr>method := Some ''POST'', headers := Some headers', data := payload,
                          parseJson := Some True\<rparr>) w of
           (Inl thrown, w1) \<Rightarrow> (Inl thrown, w1)
         | (Inr response, w1) \<Rightarrow>
             if truthy response then
               (case get_prop response ''data'' of
                  Inl thrown \<Rightarrow> (Inl thrown, w1)
                | Inr d \<Rightarrow> if truthy d then (Inr d, w1) else (Inr response, w1))
             else (Inr response, w1))"

section \<open>The GraphQL layer\<close>

record GraphQLOptions =
  query :: "string option"
  variables :: "(string \<times> js_value) list option"
  headers :: "headers option"
  useAuth :: "bool option"
  endpoint :: "string option"
  retries :: "int option"

text \<open>
  The interface declares \<open>operationName\<close> and \<open>sha256Hash\<close> as strings; \<open>None\<close> is the
  property left out by an untyped caller, which the guard \<open>!operationName || !sha256Hash\<close>
  treats like the empty string.
\<close>

record PersistedQueryOptions =
  operationName :: "string option"
  sha256Hash :: "string option"
  version :: "int option"
  variables :: "(string \<times> js_value) list option"
  headers :: "headers option"
  useAuth :: "bool option"
  retries :: "int option"

text \<open>\<open>errors\<close> is \<open>Undefined\<close> and \<open>operationName\<close> is \<open>None\<close> where the source leaves the property out.\<close>

record GraphQLError =
  code :: string
  message :: string
  errors :: js_value
  operationName :: "string option"

type_synonym GraphQLResponse = "GraphQLError option \<times> js_value"

text \<open>\<open>!s\<close> for an optional string, and the string itself once the guard has passed.\<close>

definition falsy_string :: "string option \<Rightarrow> bool" where
  "falsy_string s = (case s of None \<Rightarrow> True | Some t \<Rightarrow> t = [])"

definition string_of :: "string option \<Rightarrow> string" where
  "string_of s = (case s of None \<Rightarrow> [] | Some t \<Rightarrow> t)"

text \<open>The \<open>try\<close> block of \<open>executeQuery\<close>.\<close>

definition executeQuery_try ::
  "host \<Rightarrow> GraphQLOptions \<Rightarrow> world \<Rightarrow> (js_error + js_value) \<times> world" where
  "executeQuery_try h options w =
     (case getBaseUrl h of
        Inl thrown \<Rightarrow> (Inl thrown, w)
      | Inr baseUrl \<Rightarrow>
          let endpoint' = (case endpoint options of None \<Rightarrow> ''/graphql'' | Some e \<Rightarrow> e);
              url = (if startsWith endpoint' ''http'' then endpoint' else baseUrl @ endpoint')
          in fetchGraphQL h url (string_of (query options))
               (case GraphQLOptions.variables options of None \<Rightarrow> [] | Some v \<Rightarrow> v)
               (no_options\<lparr>FetchOptions.headers :=
                             Some (case GraphQLOptions.headers options of None \<Rightarrow> [] | Some hs \<Rightarrow> hs),
                           FetchOptions.useAuth :=
                             Some (case GraphQLOptions.useAuth options of None \<Rightarrow> False | Some b \<Rightarrow> b),
                           FetchOptions.retries :=
                             Some (case GraphQLOptions.retries options of None \<Rightarrow> 3 | Some n \<Rightarrow> n)\<rparr>)
               w)"

definition executeQuery :: "host \<Rightarrow> GraphQLOptions \<Rightarrow> world \<Rightarrow> GraphQLResponse \<times> world" where
  "executeQuery h options w =
     (if falsy_string (query options) then
        ((Some \<lparr>code = ''INVALID_QUERY'', message = ''Query string is required'',
                 errors = Undefined, operationName = None\<rparr>, Null), w)
      else
        (case executeQuery_try h options w of
           (Inr response, w1) \<Rightarrow> ((None, response), w1)
         | (Inl err, w1) \<Rightarrow>
             if js_error.message err \<noteq> [] \<and> includes_str (js_error.message err) ''GraphQL errors''
             then ((Some \<lparr>code = ''GQL_ERROR'', message = js_error.message err,
                           errors = Undefined, operationName = None\<rparr>, Null), w1)
             else ((Some \<lparr>code = ''EXCEPTION'', message = js_error.message err,
                           errors = Undefined, operationName = None\<rparr>, Null), w1)))"

text \<open>\<open>errors.map((e) => e.message)\<close>: stops at the first element that cannot be read.\<close>

fun map_message :: "js_value list \<Rightarrow> js_error + js_value list" where
  "map_message [] = Inr []"
| "map_message (e # es) =
     (case get_prop e ''message'' of
        Inl thrown \<Rightarrow> Inl thrown
      | Inr m \<Rightarrow> (case map_message es of Inl thrown \<Rightarrow> Inl thrown | Inr ms \<Rightarrow> Inr (m # ms)))"

text \<open>
  What \<open>executePersistedQuery\<close> does with the value \<open>response\<close> that \<open>getJson\<close> returned:
  the statements from \<open>if (response && response.errors)\<close> to the end of the \<open>try\<close> block.
\<close>

definition inspect_response :: "string \<Rightarrow> js_value \<Rightarrow> js_error + GraphQLResponse" where
  "inspect_response opName response =
     (case (if truthy response then get_prop response ''errors'' else Inr response) of
        Inl thrown \<Rightarrow> Inl thrown
      | Inr errs \<Rightarrow>
          if truthy errs then
            (case errs of
               Array es \<Rightarrow>
                 (case map_message es of
                    Inl thrown \<Rightarrow> Inl thrown
                  | Inr ms \<Rightarrow>
                      (case get_prop response ''data'' of
                         Inl thrown \<Rightarrow> Inl thrown
                       | Inr d \<Rightarrow>
                           Inr (Some \<lparr>code = ''GQL_ERROR'', message = array_join '', '' ms,
                                      errors = errs, operationName = Some opName\<rparr>,
                                if truthy d then d else Null)))
             | _ \<Rightarrow> Inl \<lparr>kind = ''TypeError'', message = ''response.errors.map is not a function''\<rparr>)
          else
            (case get_prop response ''data'' of
               Inl thrown \<Rightarrow> Inl thrown
             | Inr d \<Rightarrow> Inr (None, d)))"

text \<open>The query-string parameters and the URL of a persisted query.\<close>

definition persisted_params :: "host \<Rightarrow> PersistedQueryOptions \<Rightarrow> (string \<times> string) list" where
  "persisted_params h options =
     (let vars = (case PersistedQueryOptions.variables options of None \<Rightarrow> [] | Some v \<Rightarrow> v);
          version' = (case version options of None \<Rightarrow> 1 | Some n \<Rightarrow> n)
      in [(''operationName'', string_of (PersistedQueryOptions.operationName options))]
         @ (if length vars > 0 then [(''variables'', JSON_stringify h (Object vars))] else [])
         @ [(''extensions'',
             JSON_stringify h
               (Object [(''persistedQuery'',
                         Object [(''version'', Number version'),
                                 (''sha256Hash'', Str (string_of (sha256Hash options)))])]))])"

definition persisted_fetch_options :: "PersistedQueryOptions \<Rightarrow> FetchOptions" where
  "persisted_fetch_options options =
     no_options\<lparr>FetchOptions.headers :=
                   Some (case PersistedQueryOptions.headers options of None \<Rightarrow> [] | Some hs \<Rightarrow> hs),
                 FetchOptions.useAuth :=
                   Some (case PersistedQueryOptions.useAuth options of None \<Rightarrow> False | Some b \<Rightarrow> b),
                 FetchOptions.retries :=
                   Some (case PersistedQueryOptions.retries options of None \<Rightarrow> 3 | Some n \<Rightarrow> n),
                 throwOnError := Some False\<rparr>"

text \<open>The \<open>try\<close> block of \<open>executePersistedQuery\<close>.\<close>

definition executePersistedQuery_try ::
  "host \<Rightarrow> PersistedQueryOptions \<Rightarrow> world \<Rightarrow> (js_error + GraphQLResponse) \<times> world" where
  "executePersistedQuery_try h options w =
     (case getBaseUrl h of
        Inl thrown \<Rightarrow> (Inl thrown, w)
      | Inr baseUrl \<Rightarrow>
          (case URLSearchParams_toString h (persisted_params h options) of
             Inl thrown \<Rightarrow> (Inl thrown, w)
           | Inr qs \<Rightarrow>
               (case getJson h (baseUrl @ ''?'' @ qs) (persisted_fetch_options options) w of
                  (Inl thrown, w1) \<Rightarrow> (Inl thrown, w1)
                | (Inr response, w1) \<Rightarrow>
                    (inspect_response (string_of (PersistedQueryOptions.operationName options))
                       response, w1))))"

definition executePersistedQuery ::
  "host \<Rightarrow> PersistedQueryOptions \<Rightarrow> world \<Rightarrow> GraphQLResponse \<times> world" where
  "executePersistedQuery h options w =
     (if falsy_string (PersistedQueryOptions.operationName options) \<or> falsy_string (sha256Hash options)
      then
        ((Some \<lparr>code = ''INVALID_PERSISTED_QUERY'',
                 message = ''operationName and sha256Hash are required'',
                 errors = Undefined, operationName = None\<rparr>, Null), w)
      else
        (case executePersistedQuery_try h options w of
           (Inr result, w1) \<Rightarrow> (result, w1)
         | (Inl err, w1) \<Rightarrow>
             ((Some \<lparr>code = ''EXCEPTION'', message = js_error.message err, errors = Undefined,
                      operationName = Some (string_of (PersistedQueryOptions.operationName options))\<rparr>,
               Null), w1)))"

text \<open>The raising forms \<open>query\<close> and \<open>persistedQuery\<close>.\<close>

definition query_convenience ::
  "host \<Rightarrow> string \<Rightarrow> (string \<times> js_value) list option \<Rightarrow> world \<Rightarrow> (js_error + js_value) \<times> world" where
  "query_convenience h queryString vars w =
     (case executeQuery h
             \<lparr>query = Some queryString, variables = vars, headers = None, useAuth = None,
              endpoint = None, retries = None\<rparr> w of
        ((Some error, d), w1) \<Rightarrow>
          (Inl \<lparr>kind = ''GraphQLError'', message = GraphQLError.message error\<rparr>, w1)
      | ((None, d), w1) \<Rightarrow> (Inr d, w1))"

definition persistedQuery ::
  "host \<Rightarrow> string \<Rightarrow> string \<Rightarrow> (string \<times> js_value) list option \<Rightarrow> world
     \<Rightarrow> (js_error + js_value) \<times> world" where
  "persistedQuery h opName hash vars w =
     (case executePersistedQuery h
             \<lparr>PersistedQueryOptions.operationName = Some opName, sha256Hash = Some hash, version = None,
              variables = vars, headers = None, useAuth = None, retries = None\<rparr> w of
        ((Some error, d), w1) \<Rightarrow>
          (Inl \<lparr>kind = ''GraphQLError'', message = GraphQLError.message error\<rparr>, w1)
      | ((None, d), w1) \<Rightarrow> (Inr d, w1))"

section \<open>Observers used in the statements\<close>

text \<open>
  The outcome of the attempt that is made when \<open>i\<close> transport calls precede it, and whether
  that attempt throws (so that the \<open>catch\<close> block of the loop runs).
\<close>

definition attempt_at :: "host \<Rightarrow> string \<Rightarrow> FetchOptions \<Rightarrow> nat \<Rightarrow> js_error + js_value" where
  "attempt_at h url options i =
     fst (attempt h url options
            \<lparr>calls = replicate i (dispatch h url options), waits = [], parsed = []\<rparr>)"

definition throws_at :: "host \<Rightarrow> string \<Rightarrow> FetchOptions \<Rightarrow> nat \<Rightarrow> bool" where
  "throws_at h url options i = isl (attempt_at h url options i)"

text \<open>The transport calls and the blocking waits that a computation added to the world.\<close>

definition calls_made :: "world \<Rightarrow> 'a \<times> world \<Rightarrow> transport_call list" where
  "calls_made w res = drop (length (calls w)) (calls (snd res))"

definition waits_made :: "world \<Rightarrow> 'a \<times> world \<Rightarrow> int list" where
  "waits_made w res = drop (length (waits w)) (waits (snd res))"

definition parses_made :: "world \<Rightarrow> 'a \<times> world \<Rightarrow> string list" where
  "parses_made w res = drop (length (parsed w)) (parsed (snd res))"

text \<open>The header object that a transport call carries.\<close>

fun call_headers :: "transport_call \<Rightarrow> headers" where
  "call_headers (GET url hs auth) = hs"
| "call_headers (POST url b hs auth) = hs"
| "call_headers (REQUEST m url b hs auth) = hs"

text \<open>
  The result of \<open>_fetch\<close> once the loop has run out of attempts with \<open>lastError\<close>, and the
  waits that \<open>j\<close> retries cause.
\<close>

definition exhausted :: "string \<Rightarrow> FetchOptions \<Rightarrow> js_error option \<Rightarrow> js_error + js_value" where
  "exhausted url options lastError =
     (if opt_throwOnError options then
        Inl \<lparr>kind = ''NetworkError'',
              message = ''Request to '' @ url @ '' failed after ''
                        @ show_int (opt_retries options + 1) @ '' attempts: ''
                        @ (case lastError of
                             None \<Rightarrow> ''Unknown error''
                           | Some e \<Rightarrow> if js_error.message e = [] then ''Unknown error''
                                       else js_error.message e)\<rparr>
      else Inr Null)"

definition delays :: "FetchOptions \<Rightarrow> nat \<Rightarrow> int list" where
  "delays options j =
     (if opt_retryDelay options > 0 then replicate j (opt_retryDelay options) else [])"

section \<open>A scripted host for concrete runs\<close>

text \<open>
  A test double of the host: the transport answers its \<open>i\<close>-th call with \<open>script i\<close>,
  \<open>JSON.stringify\<close> renders a value as compact JSON text (the sample strings need no
  escaping), and \<open>JSON.parse\<close> accepts exactly the renderings of the sample documents.
\<close>

fun render :: "js_value \<Rightarrow> string" where
  "render (Bool b) = (if b then ''true'' else ''false'')"
| "render (Number n) = show_int n"
| "render (Str s) = [CHR 0x22] @ s @ [CHR 0x22]"
| "render (Array xs) = ''['' @ join '','' (map render xs) @ '']''"
| "render (Object kvs) =
     ''{'' @ join '','' (map (\<lambda>(k, v). [CHR 0x22] @ k @ [CHR 0x22] @ '':'' @ render v) kvs) @ ''}''"
| "render v = ''null''"

definition doc_errors :: js_value where
  "doc_errors =
     Object [(''errors'', Array [Object [(''message'', Str ''A'')], Object [(''message'', Str ''B'')]]),
             (''data'', Object [(''x'', Number 1)])]"

definition doc_data :: js_value where
  "doc_data = Object [(''data'', Object [(''x'', Number 1)])]"

definition sample_parse :: "string \<Rightarrow> js_error + js_value" where
  "sample_parse s =
     (case find (\<lambda>v. render v = s) [doc_errors, doc_data] of
        Some v \<Rightarrow> Inr v
      | None \<Rightarrow> Inl \<lparr>kind = ''SyntaxError'', message = ''Unexpected token''\<rparr>)"

definition scripted_host :: "(nat \<Rightarrow> js_error + response) \<Rightarrow> host" where
  "scripted_host script =
     \<lparr>defaultHeaders = Some [(''User-Agent'', ''D'')],
      http = (\<lambda>i c. script i),
      JSON_parse = sample_parse,
      JSON_stringify = render,
      parseFromString = (\<lambda>s. Inr (Document 0)),
      URLSearchParams_toString = (\<lambda>ps. Inr (join ''&'' (map (\<lambda>(k, v). k @ ''='' @ v) ps))),
      getBaseUrl = Inr ''https://api.example''\<rparr>"

definition status :: "int \<Rightarrow> string \<Rightarrow> js_error + response" where
  "status c b = Inr \<lparr>isOk = (200 \<le> c \<and> c < 400), code = c, body = b\<rparr>"

text \<open>
  Three transports: one that answers 500 to every call, one that answers 500 once and 200
  afterwards, and one whose first call throws, whose second call answers 200 with a body
  that is not JSON, whose third call answers 200 with the sample document carrying
  \<open>errors\<close>, and whose later calls answer 500.
\<close>

definition down_host :: host where
  "down_host = scripted_host (\<lambda>i. status 500 [])"

definition flaky_host :: host where
  "flaky_host = scripted_host (\<lambda>i. if i = 0 then status 500 [] else status 200 ''ok'')"

definition faulty_host :: host where
  "faulty_host =
     scripted_host (\<lambda>i. if i = 0 then Inl \<lparr>kind = ''Error'', message = ''connection reset''\<rparr>
                         else if i = 1 then status 200 ''oops''
                         else if i = 2 then status 200 (render doc_errors)
                         else status 500 [])"

text \<open>A transport that answers every call with 200 and the sample document carrying \<open>errors\<close>.\<close>

definition errors_host :: host where
  "errors_host = scripted_host (\<lambda>i. status 200 (render doc_errors))"

text \<open>A transport that answers every call with 200 and the sample document without \<open>errors\<close>.\<close>

definition data_host :: host where
  "data_host = scripted_host (\<lambda>i. status 200 (render doc_data))"

definition fresh :: world where
  "fresh = \<lparr>calls = [], waits = [], parsed = []\<rparr>"

section \<open>The retry loop\<close>

lemma attempt_calls: "calls (snd (attempt h url options w)) = calls w @ [dispatch h url options]"
  by (simp add: attempt_def transport_def split: sum.splits)

lemma attempt_waits: "waits (snd (attempt h url options w)) = waits w"
  by (simp add: attempt_def transport_def split: sum.splits)

lemma attempt_fst: "fst (attempt h url options w) = attempt_at h url options (length (calls w))"
  by (simp add: attempt_at_def attempt_def transport_def split: sum.splits)

lemma loop_stop: "\<not> a > 0 \<Longrightarrow> retry_loop h url options a le w = (exhausted url options le, w)"
  by (simp add: retry_loop.simps exhausted_def)

lemma loop_return:
  "a > 0 \<Longrightarrow> attempt h url options w = (Inr v, w1) \<Longrightarrow> retry_loop h url options a le w = (Inr v, w1)"
  by (subst retry_loop.simps) simp

lemma loop_retry:
  "a > 0 \<Longrightarrow> attempt h url options w = (Inl e, w1) \<Longrightarrow>
   retry_loop h url options a le w =
     retry_loop h url options (a - 1) (Some e)
       (if a - 1 > 0 \<and> opt_retryDelay options > 0 then busy_wait (opt_retryDelay options) w1 else w1)"
  by (subst retry_loop.simps) simp

lemma loop_success:
  "j < nat a \<Longrightarrow> \<forall>i<j. throws_at h url options (length (calls w) + i) \<Longrightarrow>
   attempt_at h url options (length (calls w) + j) = Inr v \<Longrightarrow>
   fst (retry_loop h url options a le w) = Inr v \<and>
   calls (snd (retry_loop h url options a le w)) = calls w @ replicate (Suc j) (dispatch h url options) \<and>
   waits (snd (retry_loop h url options a le w)) = waits w @ delays options j"
proof (induction j arbitrary: a le w)
  case 0
  obtain r w1 where A: "attempt h url options w = (r, w1)" by (cases "attempt h url options w")
  from 0 attempt_fst[of h url options w] A have r: "r = Inr v" by simp
  have "a > 0" using 0 by simp
  from loop_return[OF this A[unfolded r]] attempt_calls[of h url options w] attempt_waits[of h url options w] A
  show ?case by (simp add: delays_def)
next
  case (Suc j)
  obtain r w1 where A: "attempt h url options w = (r, w1)" by (cases "attempt h url options w")
  have "throws_at h url options (length (calls w) + 0)" using Suc.prems(2) by blast
  with attempt_fst[of h url options w] A have "isl r" by (simp add: throws_at_def)
  then obtain e where r: "r = Inl e" by (cases r) auto
  have a: "a > 0" "a - 1 > 0" "j < nat (a - 1)" using Suc.prems(1) by auto
  let ?w2 = "(if a - 1 > 0 \<and> opt_retryDelay options > 0 then busy_wait (opt_retryDelay options) w1 else w1)"
  have c2: "calls ?w2 = calls w @ [dispatch h url options]"
    using attempt_calls[of h url options w] A by (simp add: busy_wait_def)
  have w2: "waits ?w2 = waits w @ delays options 1"
    using attempt_waits[of h url options w] A a by (simp add: busy_wait_def delays_def)
  have step: "retry_loop h url options a le w = retry_loop h url options (a - 1) (Some e) ?w2"
    using loop_retry[OF a(1) A[unfolded r]] .
  have p2: "\<forall>i<j. throws_at h url options (length (calls ?w2) + i)"
    using Suc.prems(2) c2 by auto
  have p3: "attempt_at h url options (length (calls ?w2) + j) = Inr v"
    using Suc.prems(3) c2 by simp
  from Suc.IH[OF a(3) p2 p3, of "Some e"] step c2 w2
  show ?case by (simp add: delays_def replicate_append_same)
qed


lemma loop_exhaust:
  "n = nat a \<Longrightarrow> \<forall>i<n. throws_at h url options (length (calls w) + i) \<Longrightarrow>
   fst (retry_loop h url options a le w) =
     exhausted url options
       (if a > 0 then Some (projl (attempt_at h url options (length (calls w) + n - 1))) else le) \<and>
   calls (snd (retry_loop h url options a le w)) = calls w @ replicate n (dispatch h url options) \<and>
   waits (snd (retry_loop h url options a le w)) = waits w @ delays options (n - 1)"
proof (induction n arbitrary: a le w)
  case 0
  then have na: "\<not> a > 0" by simp
  from loop_stop[OF na] na show ?case by (simp add: delays_def)
next
  case (Suc n)
  obtain r w1 where A: "attempt h url options w = (r, w1)" by (cases "attempt h url options w")
  have "throws_at h url options (length (calls w) + 0)" using Suc.prems(2) by blast
  with attempt_fst[of h url options w] A have "isl r" by (simp add: throws_at_def)
  then obtain e where r: "r = Inl e" by (cases r) auto
  have e: "attempt_at h url options (length (calls w)) = Inl e"
    using attempt_fst[of h url options w] A r by simp
  have a: "a > 0" "n = nat (a - 1)" using Suc.prems(1) by auto
  let ?w2 = "(if a - 1 > 0 \<and> opt_retryDelay options > 0 then busy_wait (opt_retryDelay options) w1 else w1)"
  have c2: "calls ?w2 = calls w @ [dispatch h url options]"
    using attempt_calls[of h url options w] A by (simp add: busy_wait_def)
  have pos: "(a - 1 > 0) = (n > 0)" using a(2) by auto
  have w2: "waits ?w2 = waits w @ delays options (if n > 0 then 1 else 0)"
    using attempt_waits[of h url options w] A pos by (simp add: busy_wait_def delays_def)
  have step: "retry_loop h url options a le w = retry_loop h url options (a - 1) (Some e) ?w2"
    using loop_retry[OF a(1) A[unfolded r]] .
  have p2: "\<forall>i<n. throws_at h url options (length (calls ?w2) + i)"
    using Suc.prems(2) c2 by auto
  have d: "delays options (if n > 0 then 1 else 0) @ delays options (n - 1) = delays options n"
    by (cases n) (simp_all add: delays_def)
  have l: "(if a - 1 > 0 then Some (projl (attempt_at h url options (length (calls ?w2) + n - 1))) else Some e)
           = Some (projl (attempt_at h url options (length (calls w) + Suc n - 1)))"
    using pos e c2 by (cases n) simp_all
  from Suc.IH[OF a(2) p2, of "Some e"] step c2 w2 d a(1) l
  show ?case by (simp add: replicate_append_same)
qed


lemma success_is_ok:
  "opt_throwOnError options \<Longrightarrow> \<not> throws_at h url options i \<Longrightarrow>
   \<exists>resp. http h i (dispatch h url options) = Inr resp \<and> isOk resp"
  by (auto simp: throws_at_def attempt_at_def attempt_def transport_def split: sum.splits if_splits)

lemma failure_throws:
  "opt_throwOnError options \<Longrightarrow>
   \<forall>i. (\<exists>e. http h i (dispatch h url options) = Inl e)
        \<or> (\<exists>resp. http h i (dispatch h url options) = Inr resp \<and>
              (\<not> isOk resp \<or> opt_parseJson options \<and> isl (JSON_parse h (body resp))))
       \<longrightarrow> throws_at h url options i"
  by (auto simp: throws_at_def attempt_at_def attempt_def transport_def split: sum.splits)

lemma upper_GET: "toUpperCase ''GET'' = ''GET''"
  by (simp add: toUpperCase_def upper_char_def)

text \<open>
  C1. With \<open>throwOnError\<close> true and \<open>retries = n \<ge> 0\<close>, \<open>_fetch\<close> makes \<open>m\<close> transport
  calls, all of them the same call, where \<open>m\<close> is at most \<open>n + 1\<close>; if the first attempt that
  does not throw is attempt \<open>j\<close> (counted from 0) then \<open>m = min (n + 1) (j + 1)\<close> and, when
  \<open>j \<le> n\<close>, its value is returned; if every attempt throws then \<open>m = n + 1\<close> and
  \<open>_fetch\<close> throws. An attempt that does not throw had an OK transport response, and an
  attempt throws whenever the transport throws, answers with a non-OK status, or (with
  \<open>parseJson\<close>) sends a body that \<open>JSON.parse\<close> rejects. With
  \<open>retries = 0\<close> exactly one call is made and nothing is waited for, and with
  \<open>retryDelay = 0\<close> no blocking wait happens at all.
\<close>

theorem retry_attempt_count:
  assumes "opt_throwOnError options" and "0 \<le> opt_retries options"
  shows "let n = nat (opt_retries options); k = length (calls w);
             res = internal_fetch h url options w; m = length (calls_made w res)
         in m \<le> n + 1 \<and> calls_made w res = replicate m (dispatch h url options)
            \<and> (\<forall>j. (\<forall>i<j. throws_at h url options (k + i)) \<and> \<not> throws_at h url options (k + j)
                   \<longrightarrow> m = min (n + 1) (j + 1) \<and> (j \<le> n \<longrightarrow> fst res = attempt_at h url options (k + j)))
            \<and> ((\<forall>j. throws_at h url options (k + j)) \<longrightarrow> m = n + 1 \<and> isl (fst res))
            \<and> (\<forall>i. \<not> throws_at h url options i
                   \<longrightarrow> (\<exists>resp. http h i (dispatch h url options) = Inr resp \<and> isOk resp))
            \<and> (\<forall>i. (\<exists>e. http h i (dispatch h url options) = Inl e)
                     \<or> (\<exists>resp. http h i (dispatch h url options) = Inr resp \<and>
                           (\<not> isOk resp \<or> opt_parseJson options \<and> isl (JSON_parse h (body resp))))
                   \<longrightarrow> throws_at h url options i)
            \<and> (n = 0 \<longrightarrow> m = 1 \<and> waits_made w res = [])
            \<and> (opt_retryDelay options = 0 \<longrightarrow> waits_made w res = [])"
proof -
  define n where "n = nat (opt_retries options)"
  define k where "k = length (calls w)"
  define res where "res = internal_fetch h url options w"
  define m where "m = length (calls_made w res)"
  define a where "a = opt_retries options + 1"
  have na: "nat a = n + 1" using assms(2) by (simp add: a_def n_def)
  have res: "res = retry_loop h url options a None w" by (simp add: res_def internal_fetch_def a_def)
  have ex: "\<forall>i\<le>n. throws_at h url options (k + i) \<Longrightarrow>
            m = n + 1 \<and> calls_made w res = replicate m (dispatch h url options) \<and> isl (fst res)
            \<and> waits_made w res = delays options n" 
  proof -
    assume "\<forall>i\<le>n. throws_at h url options (k + i)"
    then have "\<forall>i<n + 1. throws_at h url options (length (calls w) + i)" by (simp add: k_def)
    from loop_exhaust[OF na[symmetric] this, of None] assms(1)
    show ?thesis by (simp add: m_def calls_made_def waits_made_def res exhausted_def)
  qed
  have su: "\<And>j. j \<le> n \<Longrightarrow> \<forall>i<j. throws_at h url options (k + i) \<Longrightarrow> \<not> throws_at h url options (k + j) \<Longrightarrow>
            m = j + 1 \<and> calls_made w res = replicate m (dispatch h url options)
            \<and> fst res = attempt_at h url options (k + j) \<and> waits_made w res = delays options j"
  proof -
    fix j assume j: "j \<le> n" and t: "\<forall>i<j. throws_at h url options (k + i)"
      and s: "\<not> throws_at h url options (k + j)"
    from s obtain v where v: "attempt_at h url options (length (calls w) + j) = Inr v"
      by (cases "attempt_at h url options (k + j)") (auto simp: throws_at_def k_def)
    have "j < nat a" using j na by simp
    from loop_success[OF this t[unfolded k_def] v, of None] v
    show "m = j + 1 \<and> calls_made w res = replicate m (dispatch h url options)
            \<and> fst res = attempt_at h url options (k + j) \<and> waits_made w res = delays options j"
      by (simp add: m_def calls_made_def waits_made_def res k_def)
  qed
  have first: "(\<forall>i\<le>n. throws_at h url options (k + i)) \<or>
               (\<exists>j\<le>n. (\<forall>i<j. throws_at h url options (k + i)) \<and> \<not> throws_at h url options (k + j))"
  proof (cases "\<forall>i\<le>n. throws_at h url options (k + i)")
    case True then show ?thesis by simp
  next
    case False
    then have E: "\<exists>i. \<not> throws_at h url options (k + i) \<and> i \<le> n" by auto
    define j where "j = (LEAST i. \<not> throws_at h url options (k + i) \<and> i \<le> n)"
    have "\<not> throws_at h url options (k + j) \<and> j \<le> n" unfolding j_def using E by (rule LeastI_ex)
    moreover have "\<forall>i<j. throws_at h url options (k + i)"
      using not_less_Least[of _ "\<lambda>i. \<not> throws_at h url options (k + i) \<and> i \<le> n"] calculation
      unfolding j_def by (metis (no_types, lifting) le_trans less_imp_le_nat)
    ultimately show ?thesis by blast
  qed
  have c1: "m \<le> n + 1 \<and> calls_made w res = replicate m (dispatch h url options)"
    using first ex su by force
  have c2: "\<forall>j. (\<forall>i<j. throws_at h url options (k + i)) \<and> \<not> throws_at h url options (k + j)
                   \<longrightarrow> m = min (n + 1) (j + 1) \<and> (j \<le> n \<longrightarrow> fst res = attempt_at h url options (k + j))"
  proof (intro allI impI)
    fix j assume H: "(\<forall>i<j. throws_at h url options (k + i)) \<and> \<not> throws_at h url options (k + j)"
    show "m = min (n + 1) (j + 1) \<and> (j \<le> n \<longrightarrow> fst res = attempt_at h url options (k + j))"
    proof (cases "j \<le> n")
      case True
      with su[OF True] H show ?thesis by simp
    next
      case False
      then have "\<forall>i\<le>n. throws_at h url options (k + i)" using H by simp
      from ex[OF this] False show ?thesis by simp
    qed
  qed
  have c3: "(\<forall>j. throws_at h url options (k + j)) \<longrightarrow> m = n + 1 \<and> isl (fst res)"
    using ex by simp
  have c4: "\<forall>i. \<not> throws_at h url options i
                   \<longrightarrow> (\<exists>resp. http h i (dispatch h url options) = Inr resp \<and> isOk resp)"
    using success_is_ok[OF assms(1)] by blast
  have c5: "n = 0 \<longrightarrow> m = 1 \<and> waits_made w res = []"
    using first ex su by (auto simp: delays_def)
  have c6: "opt_retryDelay options = 0 \<longrightarrow> waits_made w res = []"
    using first ex su by (auto simp: delays_def)
  have c7: "\<forall>i. (\<exists>e. http h i (dispatch h url options) = Inl e)
                     \<or> (\<exists>resp. http h i (dispatch h url options) = Inr resp \<and>
                           (\<not> isOk resp \<or> opt_parseJson options \<and> isl (JSON_parse h (body resp))))
                   \<longrightarrow> throws_at h url options i"
    using assms(1) by (rule failure_throws)
  from c1 c2 c3 c4 c5 c6 c7 show ?thesis
    unfolding Let_def n_def[symmetric] k_def[symmetric] res_def[symmetric] m_def[symmetric]
    by blast
qed

theorem retry_attempt_count_witness:
  "opt_throwOnError no_options \<and> 0 \<le> opt_retries no_options
   \<and> throws_at flaky_host ''u'' no_options 0 \<and> \<not> throws_at flaky_host ''u'' no_options 1
   \<and> length (calls_made fresh (internal_fetch flaky_host ''u'' no_options fresh)) = 2"
proof -
  have h1: "opt_throwOnError no_options" by (simp add: opt_throwOnError_def no_options_def)
  have h2: "0 \<le> opt_retries no_options" by (simp add: opt_retries_def no_options_def)
  have t0: "throws_at flaky_host ''u'' no_options 0"
    by (simp add: throws_at_def attempt_at_def attempt_def transport_def scripted_host_def
        flaky_host_def status_def opt_throwOnError_def no_options_def)
  have t1: "\<not> throws_at flaky_host ''u'' no_options 1"
    by (simp add: throws_at_def attempt_at_def attempt_def transport_def scripted_host_def
        flaky_host_def status_def opt_throwOnError_def opt_parseJson_def opt_parseHtml_def
        no_options_def)
  have "\<forall>i<1::nat. throws_at flaky_host ''u'' no_options (length (calls fresh) + i)"
    using t0 by (simp add: fresh_def)
  moreover have "\<not> throws_at flaky_host ''u'' no_options (length (calls fresh) + 1)"
    using t1 by (simp add: fresh_def)
  ultimately have "length (calls_made fresh (internal_fetch flaky_host ''u'' no_options fresh))
        = min (nat (opt_retries no_options) + 1) (1 + 1)"
    using retry_attempt_count[OF h1 h2, of fresh flaky_host "''u''"] unfolding Let_def by blast
  then have "length (calls_made fresh (internal_fetch flaky_host ''u'' no_options fresh)) = 2"
    by (simp add: opt_retries_def no_options_def)
  with h1 h2 t0 t1 show ?thesis by blast
qed

lemma nonok_returns_null:
  "\<not> opt_throwOnError options \<Longrightarrow> http h i (dispatch h url options) = Inr resp \<Longrightarrow> \<not> isOk resp \<Longrightarrow>
   attempt_at h url options i = Inr Null"
  by (simp add: attempt_at_def attempt_def transport_def)

lemmas run_simps = internal_fetch_def retry_loop.simps attempt_def transport_def scripted_host_def dispatch_def
        status_def opt_throwOnError_def opt_parseJson_def opt_parseHtml_def no_options_def opt_retries_def
        opt_method_def upper_GET fresh_def busy_wait_def opt_retryDelay_def calls_made_def waits_made_def

lemma quiet_failure_throws:
  "(\<exists>e. http h i (dispatch h url options) = Inl e)
   \<or> (\<exists>resp. http h i (dispatch h url options) = Inr resp \<and> isOk resp \<and> opt_parseJson options
         \<and> (isl (JSON_parse h (body resp))
            \<or> (\<exists>v. JSON_parse h (body resp) = Inr v
                  \<and> (isl (get_prop v ''errors'')
                     \<or> (\<exists>errs. get_prop v ''errors'' = Inr errs \<and> truthy errs)))))
   \<Longrightarrow> throws_at h url options i"
  by (auto simp: throws_at_def attempt_at_def attempt_def transport_def split: sum.splits)

lemma sample_parse_errors: "sample_parse (render doc_errors) = Inr doc_errors"
  by (simp add: sample_parse_def)

lemma sample_parse_oops: "isl (sample_parse ''oops'')"
  by (simp add: sample_parse_def doc_errors_def doc_data_def show_int_def digits.simps)

text \<open>
  C2 (as the code has it). With \<open>throwOnError\<close> false and \<open>retries = n \<ge> 0\<close>, an attempt
  throws when the transport throws or, with \<open>parseJson\<close>, when the answer is OK and
  \<open>JSON.parse\<close> fails or the payload's \<open>errors\<close> field cannot be read or is truthy; an
  attempt that meets a non-OK status does not throw but returns \<open>null\<close>. If every one of
  the \<open>n + 1\<close> attempts throws, all \<open>n + 1\<close> transport calls are made and \<open>null\<close> is
  returned. A non-OK transport status is not retried: if attempt \<open>j\<close> meets one after
  \<open>j\<close> throwing attempts, \<open>null\<close> is returned at once, after \<open>j + 1\<close> transport calls.
\<close>

theorem no_throw_retry_budget:
  assumes "\<not> opt_throwOnError options" and "0 \<le> opt_retries options"
  shows "let n = nat (opt_retries options); k = length (calls w);
             res = internal_fetch h url options w; m = length (calls_made w res);
             fails = (\<lambda>i. (\<exists>e. http h i (dispatch h url options) = Inl e)
                \<or> (\<exists>resp. http h i (dispatch h url options) = Inr resp \<and> isOk resp
                      \<and> opt_parseJson options
                      \<and> (isl (JSON_parse h (body resp))
                         \<or> (\<exists>v. JSON_parse h (body resp) = Inr v
                               \<and> (isl (get_prop v ''errors'')
                                  \<or> (\<exists>errs. get_prop v ''errors'' = Inr errs \<and> truthy errs))))))
         in ((\<forall>i\<le>n. throws_at h url options (k + i)) \<longrightarrow> m = n + 1 \<and> fst res = Inr Null)
            \<and> (\<forall>j\<le>n. (\<forall>i<j. throws_at h url options (k + i))
                      \<and> (\<exists>resp. http h (k + j) (dispatch h url options) = Inr resp \<and> \<not> isOk resp)
                   \<longrightarrow> m = j + 1 \<and> fst res = Inr Null)
            \<and> (\<forall>i. fails i \<longrightarrow> throws_at h url options i)
            \<and> (\<forall>i resp. http h i (dispatch h url options) = Inr resp \<and> \<not> isOk resp
                   \<longrightarrow> attempt_at h url options i = Inr Null)
            \<and> ((\<forall>i\<le>n. fails (k + i)) \<longrightarrow> m = n + 1 \<and> fst res = Inr Null)
            \<and> (\<forall>j\<le>n. (\<forall>i<j. fails (k + i))
                      \<and> (\<exists>resp. http h (k + j) (dispatch h url options) = Inr resp \<and> \<not> isOk resp)
                   \<longrightarrow> m = j + 1 \<and> fst res = Inr Null)"
proof -
  define n where "n = nat (opt_retries options)"
  define k where "k = length (calls w)"
  define res where "res = internal_fetch h url options w"
  define m where "m = length (calls_made w res)"
  define a where "a = opt_retries options + 1"
  define fails where "fails = (\<lambda>i. (\<exists>e. http h i (dispatch h url options) = Inl e)
                \<or> (\<exists>resp. http h i (dispatch h url options) = Inr resp \<and> isOk resp
                      \<and> opt_parseJson options
                      \<and> (isl (JSON_parse h (body resp))
                         \<or> (\<exists>v. JSON_parse h (body resp) = Inr v
                               \<and> (isl (get_prop v ''errors'')
                                  \<or> (\<exists>errs. get_prop v ''errors'' = Inr errs \<and> truthy errs))))))"
  have na: "nat a = n + 1" using assms(2) by (simp add: a_def n_def)
  have res: "res = retry_loop h url options a None w" by (simp add: res_def internal_fetch_def a_def)
  have c1: "(\<forall>i\<le>n. throws_at h url options (k + i)) \<longrightarrow> m = n + 1 \<and> fst res = Inr Null"
  proof
    assume "\<forall>i\<le>n. throws_at h url options (k + i)"
    then have "\<forall>i<n + 1. throws_at h url options (length (calls w) + i)" by (simp add: k_def)
    from loop_exhaust[OF na[symmetric] this, of None] assms(1)
    show "m = n + 1 \<and> fst res = Inr Null" by (simp add: m_def calls_made_def res exhausted_def)
  qed
  have c2: "\<forall>j\<le>n. (\<forall>i<j. throws_at h url options (k + i))
                      \<and> (\<exists>resp. http h (k + j) (dispatch h url options) = Inr resp \<and> \<not> isOk resp)
                   \<longrightarrow> m = j + 1 \<and> fst res = Inr Null"
  proof (intro allI impI)
    fix j assume j: "j \<le> n"
      and H: "(\<forall>i<j. throws_at h url options (k + i))
                \<and> (\<exists>resp. http h (k + j) (dispatch h url options) = Inr resp \<and> \<not> isOk resp)"
    then obtain resp where r: "http h (k + j) (dispatch h url options) = Inr resp" "\<not> isOk resp" by blast
    have v: "attempt_at h url options (length (calls w) + j) = Inr Null"
      using nonok_returns_null[OF assms(1) r] by (simp add: k_def)
    have t: "\<forall>i<j. throws_at h url options (length (calls w) + i)" using H by (simp add: k_def)
    have "j < nat a" using j na by simp
    from loop_success[OF this t v, of None]
    show "m = j + 1 \<and> fst res = Inr Null" by (simp add: m_def calls_made_def res)
  qed
  have c3: "\<forall>i. fails i \<longrightarrow> throws_at h url options i"
    unfolding fails_def using quiet_failure_throws[of h _ url options] by blast
  have c4: "\<forall>i resp. http h i (dispatch h url options) = Inr resp \<and> \<not> isOk resp
                   \<longrightarrow> attempt_at h url options i = Inr Null"
    using nonok_returns_null[OF assms(1)] by blast
  have c5: "(\<forall>i\<le>n. fails (k + i)) \<longrightarrow> m = n + 1 \<and> fst res = Inr Null"
    using c1 c3 by blast
  have c6: "\<forall>j\<le>n. (\<forall>i<j. fails (k + i))
                      \<and> (\<exists>resp. http h (k + j) (dispatch h url options) = Inr resp \<and> \<not> isOk resp)
                   \<longrightarrow> m = j + 1 \<and> fst res = Inr Null"
    using c2 c3 by blast
  from c1 c2 c3 c4 c5 c6 show ?thesis
    unfolding Let_def n_def[symmetric] k_def[symmetric] res_def[symmetric] m_def[symmetric]
      fails_def[symmetric]
    by blast
qed

text \<open>
  The claim as stated fails: against a transport that always answers 500, with the default
  three retries and \<open>throwOnError\<close> false, a single transport call is made.
\<close>

theorem no_throw_retry_budget_counterexample:
  "\<not> opt_throwOnError (no_options\<lparr>throwOnError := Some False\<rparr>)
   \<and> opt_retries (no_options\<lparr>throwOnError := Some False\<rparr>) = 3
   \<and> fst (internal_fetch down_host ''u'' (no_options\<lparr>throwOnError := Some False\<rparr>) fresh) = Inr Null
   \<and> length (calls_made fresh (internal_fetch down_host ''u'' (no_options\<lparr>throwOnError := Some False\<rparr>) fresh)) = 1"
  by (simp add: run_simps down_host_def)

theorem no_throw_retry_budget_witness:
  "\<not> opt_throwOnError (no_options\<lparr>throwOnError := Some False, parseJson := Some True\<rparr>)
   \<and> nat (opt_retries (no_options\<lparr>throwOnError := Some False, parseJson := Some True\<rparr>)) = 3
   \<and> http faulty_host 0 (dispatch faulty_host ''u'' (no_options\<lparr>throwOnError := Some False, parseJson := Some True\<rparr>))
       = Inl \<lparr>kind = ''Error'', message = ''connection reset''\<rparr>
   \<and> http faulty_host 1 (dispatch faulty_host ''u'' (no_options\<lparr>throwOnError := Some False, parseJson := Some True\<rparr>))
       = Inr \<lparr>isOk = True, code = 200, body = ''oops''\<rparr>
   \<and> isl (JSON_parse faulty_host ''oops'')
   \<and> http faulty_host 2 (dispatch faulty_host ''u'' (no_options\<lparr>throwOnError := Some False, parseJson := Some True\<rparr>))
       = Inr \<lparr>isOk = True, code = 200, body = render doc_errors\<rparr>
   \<and> JSON_parse faulty_host (render doc_errors) = Inr doc_errors
   \<and> http faulty_host 3 (dispatch faulty_host ''u'' (no_options\<lparr>throwOnError := Some False, parseJson := Some True\<rparr>))
       = Inr \<lparr>isOk = False, code = 500, body = []\<rparr>
   \<and> length (calls_made fresh (internal_fetch faulty_host ''u''
        (no_options\<lparr>throwOnError := Some False, parseJson := Some True\<rparr>) fresh)) = 4
   \<and> fst (internal_fetch faulty_host ''u''
        (no_options\<lparr>throwOnError := Some False, parseJson := Some True\<rparr>) fresh) = Inr Null
   \<and> length (calls_made fresh (internal_fetch errors_host ''u''
        (no_options\<lparr>throwOnError := Some False, parseJson := Some True\<rparr>) fresh)) = 4
   \<and> fst (internal_fetch errors_host ''u''
        (no_options\<lparr>throwOnError := Some False, parseJson := Some True\<rparr>) fresh) = Inr Null"
proof -
  define opts where "opts = no_options\<lparr>throwOnError := Some False, parseJson := Some True\<rparr>"
  have h1: "\<not> opt_throwOnError opts" by (simp add: opts_def opt_throwOnError_def)
  have h2: "0 \<le> opt_retries opts" by (simp add: opts_def opt_retries_def no_options_def)
  have n: "nat (opt_retries opts) = 3" by (simp add: opts_def opt_retries_def no_options_def)
  have pj: "opt_parseJson opts" by (simp add: opts_def opt_parseJson_def)
  have r0: "http faulty_host 0 (dispatch faulty_host ''u'' opts) = Inl \<lparr>kind = ''Error'', message = ''connection reset''\<rparr>"
    by (simp add: faulty_host_def scripted_host_def)
  have r1: "http faulty_host 1 (dispatch faulty_host ''u'' opts) = Inr \<lparr>isOk = True, code = 200, body = ''oops''\<rparr>"
    by (simp add: faulty_host_def scripted_host_def status_def)
  have p1: "isl (JSON_parse faulty_host ''oops'')"
    by (simp add: faulty_host_def scripted_host_def sample_parse_oops)
  have r2: "http faulty_host 2 (dispatch faulty_host ''u'' opts) = Inr \<lparr>isOk = True, code = 200, body = render doc_errors\<rparr>"
    by (simp add: faulty_host_def scripted_host_def status_def)
  have p2: "JSON_parse faulty_host (render doc_errors) = Inr doc_errors"
    by (simp add: faulty_host_def scripted_host_def sample_parse_errors)
  have e2: "get_prop doc_errors ''errors'' = Inr (Array [Object [(''message'', Str ''A'')], Object [(''message'', Str ''B'')]])"
    "truthy (Array [Object [(''message'', Str ''A'')], Object [(''message'', Str ''B'')]])"
    by (simp_all add: doc_errors_def)
  have r3: "http faulty_host 3 (dispatch faulty_host ''u'' opts) = Inr \<lparr>isOk = False, code = 500, body = []\<rparr>"
    by (simp add: faulty_host_def scripted_host_def status_def)
  note T = no_throw_retry_budget[OF h1 h2, of fresh faulty_host "''u''", unfolded Let_def n]
  have k: "length (calls fresh) = 0" by (simp add: fresh_def)
  have f0: "\<exists>e. http faulty_host (length (calls fresh) + 0) (dispatch faulty_host ''u'' opts) = Inl e"
    unfolding k add_0 using r0 by simp
  have f1: "\<exists>resp. http faulty_host (length (calls fresh) + 1) (dispatch faulty_host ''u'' opts) = Inr resp \<and> isOk resp
      \<and> opt_parseJson opts \<and> isl (JSON_parse faulty_host (body resp))"
    unfolding k add_0 using r1 p1 pj by simp
  have f2: "\<exists>resp. http faulty_host (length (calls fresh) + 2) (dispatch faulty_host ''u'' opts) = Inr resp \<and> isOk resp
      \<and> opt_parseJson opts \<and> (\<exists>v. JSON_parse faulty_host (body resp) = Inr v
          \<and> (\<exists>errs. get_prop v ''errors'' = Inr errs \<and> truthy errs))"
    unfolding k add_0 using r2 p2 e2 pj by simp
  have f3: "\<exists>resp. http faulty_host (length (calls fresh) + 3) (dispatch faulty_host ''u'' opts) = Inr resp \<and> \<not> isOk resp"
    unfolding k add_0 using r3 by simp
  have lt: "\<And>i::nat. i < 3 \<Longrightarrow> i = 0 \<or> i = 1 \<or> i = 2" by auto
  have A: "length (calls_made fresh (internal_fetch faulty_host ''u'' opts fresh)) = 3 + 1
      \<and> fst (internal_fetch faulty_host ''u'' opts fresh) = Inr Null"
  proof -
    from T have "\<forall>j\<le>3. (\<forall>i<j. (\<exists>e. http faulty_host (length (calls fresh) + i) (dispatch faulty_host ''u'' opts) = Inl e)
                \<or> (\<exists>resp. http faulty_host (length (calls fresh) + i) (dispatch faulty_host ''u'' opts) = Inr resp \<and> isOk resp
                      \<and> opt_parseJson opts
                      \<and> (isl (JSON_parse faulty_host (body resp))
                         \<or> (\<exists>v. JSON_parse faulty_host (body resp) = Inr v
                               \<and> (isl (get_prop v ''errors'')
                                  \<or> (\<exists>errs. get_prop v ''errors'' = Inr errs \<and> truthy errs))))))
                      \<and> (\<exists>resp. http faulty_host (length (calls fresh) + j) (dispatch faulty_host ''u'' opts) = Inr resp \<and> \<not> isOk resp)
                   \<longrightarrow> length (calls_made fresh (internal_fetch faulty_host ''u'' opts fresh)) = j + 1
                       \<and> fst (internal_fetch faulty_host ''u'' opts fresh) = Inr Null"
      by blast
    moreover have "\<forall>i<3. (\<exists>e. http faulty_host (length (calls fresh) + i) (dispatch faulty_host ''u'' opts) = Inl e)
                \<or> (\<exists>resp. http faulty_host (length (calls fresh) + i) (dispatch faulty_host ''u'' opts) = Inr resp \<and> isOk resp
                      \<and> opt_parseJson opts
                      \<and> (isl (JSON_parse faulty_host (body resp))
                         \<or> (\<exists>v. JSON_parse faulty_host (body resp) = Inr v
                               \<and> (isl (get_prop v ''errors'')
                                  \<or> (\<exists>errs. get_prop v ''errors'' = Inr errs \<and> truthy errs)))))"
    proof (intro allI impI)
      fix i :: nat assume "i < 3"
      from lt[OF this] f0 f1 f2
      show "(\<exists>e. http faulty_host (length (calls fresh) + i) (dispatch faulty_host ''u'' opts) = Inl e)
                \<or> (\<exists>resp. http faulty_host (length (calls fresh) + i) (dispatch faulty_host ''u'' opts) = Inr resp \<and> isOk resp
                      \<and> opt_parseJson opts
                      \<and> (isl (JSON_parse faulty_host (body resp))
                         \<or> (\<exists>v. JSON_parse faulty_host (body resp) = Inr v
                               \<and> (isl (get_prop v ''errors'')
                                  \<or> (\<exists>errs. get_prop v ''errors'' = Inr errs \<and> truthy errs)))))"
        by (elim disjE) blast+
    qed
    ultimately show ?thesis using f3 by blast
  qed
  note T' = no_throw_retry_budget[OF h1 h2, of fresh errors_host "''u''", unfolded Let_def n]
  have B: "length (calls_made fresh (internal_fetch errors_host ''u'' opts fresh)) = 3 + 1
      \<and> fst (internal_fetch errors_host ''u'' opts fresh) = Inr Null"
  proof -
    have "\<And>i. \<exists>resp. http errors_host i (dispatch errors_host ''u'' opts) = Inr resp \<and> isOk resp
      \<and> opt_parseJson opts \<and> (\<exists>v. JSON_parse errors_host (body resp) = Inr v
          \<and> (\<exists>errs. get_prop v ''errors'' = Inr errs \<and> truthy errs))"
      using pj e2 by (simp add: errors_host_def scripted_host_def status_def sample_parse_errors)
    with T' show ?thesis by blast
  qed
  from A B h1 n r0 r1 p1 r2 p2 r3 show ?thesis unfolding opts_def by simp
qed

section \<open>The GraphQL layer on top of the loop\<close>

lemma nonok_throws:
  "opt_throwOnError options \<Longrightarrow> http h i (dispatch h url options) = Inr resp \<Longrightarrow> \<not> isOk resp \<Longrightarrow>
   attempt_at h url options i =
     Inl \<lparr>kind = ''NetworkError'',
          message = ''Request to '' @ url @ '' failed with status '' @ show_int (response.code resp)\<rparr>"
  by (simp add: attempt_at_def attempt_def transport_def)

lemma fetch_all_throw:
  assumes "0 \<le> opt_retries options"
    and "\<forall>i\<le>nat (opt_retries options). throws_at h url options (length (calls w) + i)"
  shows "fst (internal_fetch h url options w) =
           exhausted url options
             (Some (projl (attempt_at h url options (length (calls w) + nat (opt_retries options)))))"
    and "calls (snd (internal_fetch h url options w)) =
           calls w @ replicate (nat (opt_retries options) + 1) (dispatch h url options)"
proof -
  have na: "nat (opt_retries options) + 1 = nat (opt_retries options + 1)" using assms(1) by simp
  have t: "\<forall>i<nat (opt_retries options) + 1. throws_at h url options (length (calls w) + i)"
    using assms(2) by simp
  from loop_exhaust[OF na t, of None] assms(1)
  show "fst (internal_fetch h url options w) =
           exhausted url options
             (Some (projl (attempt_at h url options (length (calls w) + nat (opt_retries options)))))"
    and "calls (snd (internal_fetch h url options w)) =
           calls w @ replicate (nat (opt_retries options) + 1) (dispatch h url options)"
    by (simp_all add: internal_fetch_def)
qed

lemma show_int_4: "show_int 4 = ''4''"
  by (simp add: show_int_def digits.simps)

text \<open>
  C3. A standard query issued through \<open>query()\<close> against a transport whose next four
  answers (the first attempt and the three default retries) are non-OK raises a failure of
  kind \<open>GraphQLError\<close> whose message is the \<open>NetworkError\<close> message of \<open>_fetch\<close>: it
  names the URL (base URL followed by \<open>/graphql\<close>) and the attempt count.
\<close>

theorem query_raises_with_url:
  assumes "getBaseUrl h = Inr baseUrl" and "queryString \<noteq> []"
    and "\<forall>i<4. \<forall>c. \<exists>resp. http h (length (calls w) + i) c = Inr resp \<and> \<not> isOk resp"
  shows "\<exists>rest. fst (query_convenience h queryString vars w) =
           Inl \<lparr>kind = ''GraphQLError'',
                message = ''Request to '' @ (baseUrl @ ''/graphql'') @ '' failed after 4 attempts: '' @ rest\<rparr>"
proof -
  let ?url = "baseUrl @ ''/graphql''"
  define opts where "opts = no_options\<lparr>FetchOptions.headers := Some [], FetchOptions.useAuth := Some False,
                FetchOptions.retries := Some 3, method := Some ''POST'',
                FetchOptions.headers := Some (spread [(''Content-Type'', ''application/json'')] []),
                data := Object [(''query'', Str queryString),
                                (''variables'', Object (case vars of None \<Rightarrow> [] | Some v \<Rightarrow> v))],
                parseJson := Some True\<rparr>"
  have th: "opt_throwOnError opts" by (simp add: opts_def opt_throwOnError_def no_options_def)
  have re: "opt_retries opts = 3" by (simp add: opts_def opt_retries_def)
  have t: "\<forall>i\<le>nat (opt_retries opts). throws_at h ?url opts (length (calls w) + i)"
  proof (intro allI impI)
    fix i assume "i \<le> nat (opt_retries opts)"
    then have "i < 4" by (simp add: re)
    with assms(3) obtain resp where "http h (length (calls w) + i) (dispatch h ?url opts) = Inr resp" "\<not> isOk resp"
      by blast
    from nonok_throws[OF th this] show "throws_at h ?url opts (length (calls w) + i)"
      by (simp add: throws_at_def)
  qed
  have "0 \<le> opt_retries opts" by (simp add: re)
  from fetch_all_throw(1)[OF this t] th
  obtain rest where F: "fst (internal_fetch h ?url opts w) =
      Inl \<lparr>kind = ''NetworkError'', message = ''Request to '' @ ?url @ '' failed after 4 attempts: '' @ rest\<rparr>"
    by (simp add: exhausted_def re show_int_4)
  obtain r w1 where R: "internal_fetch h ?url opts w = (r, w1)" by (cases "internal_fetch h ?url opts w")
  with F have r: "r = Inl \<lparr>kind = ''NetworkError'', message = ''Request to '' @ ?url @ '' failed after 4 attempts: '' @ rest\<rparr>"
    by simp
  have "fst (query_convenience h queryString vars w) =
           Inl \<lparr>kind = ''GraphQLError'',
                message = ''Request to '' @ ?url @ '' failed after 4 attempts: '' @ rest\<rparr>"
    using assms(1,2) R r
    by (simp add: opts_def query_convenience_def executeQuery_def executeQuery_try_def fetchGraphQL_def
        falsy_string_def string_of_def Let_def)
  then show ?thesis by blast
qed

theorem query_raises_with_url_witness:
  "getBaseUrl down_host = Inr ''https://api.example'' \<and> ''{viewer{id}}'' \<noteq> []
   \<and> (\<exists>rest. fst (query_convenience down_host ''{viewer{id}}'' None fresh) =
         Inl \<lparr>kind = ''GraphQLError'',
              message = ''Request to '' @ (''https://api.example'' @ ''/graphql'')
                        @ '' failed after 4 attempts: '' @ rest\<rparr>)"
proof -
  have b: "getBaseUrl down_host = Inr ''https://api.example''"
    by (simp add: down_host_def scripted_host_def)
  have q: "''{viewer{id}}'' \<noteq> []" by simp
  have t: "\<forall>i<4. \<forall>c. \<exists>resp. http down_host (length (calls fresh) + i) c = Inr resp \<and> \<not> isOk resp"
    by (simp add: down_host_def scripted_host_def status_def)
  from query_raises_with_url[OF b q t, of None] b q show ?thesis by blast
qed

section \<open>Persisted queries\<close>

lemma persisted_errors_attempt:
  "attempt_at errors_host url (no_options\<lparr>FetchOptions.headers := hs, FetchOptions.useAuth := ua, FetchOptions.retries := Some 3, throwOnError := Some False,
      method := Some ''GET'', parseJson := Some True\<rparr>) i
   = Inl \<lparr>kind = ''APIError'', message = render (Array [Object [(''message'', Str ''A'')], Object [(''message'', Str ''B'')]])\<rparr>"
  by (simp add: attempt_at_def attempt_def transport_def errors_host_def scripted_host_def status_def
      sample_parse_errors opt_parseJson_def opt_throwOnError_def) (simp add: doc_errors_def)

text \<open>
  C4 (the code departs from the claim). The transport answers every call with 200 and the
  payload with \<open>errors\<close> \<open>A\<close>, \<open>B\<close> and \<open>data\<close> \<open>{x: 1}\<close>. \<open>_fetch\<close> itself throws
  \<open>APIError\<close> on a payload carrying \<open>errors\<close>, retries, and returns \<open>null\<close> after four
  calls; \<open>executePersistedQuery\<close> then fails on \<open>response.data\<close> and returns the code
  \<open>EXCEPTION\<close> with \<open>null\<close> data, not \<open>GQL_ERROR\<close> with message \<open>A, B\<close> and the data.
\<close>

theorem persisted_errors_payload_run:
  "fst (executePersistedQuery errors_host
         \<lparr>PersistedQueryOptions.operationName = Some ''Op'', sha256Hash = Some ''abc'', version = None,
          variables = None, headers = None, useAuth = None, retries = None\<rparr> fresh)
   = (Some \<lparr>code = ''EXCEPTION'',
            message = ''Cannot read properties of null (reading '' @ [CHR 0x27] @ ''data'' @ [CHR 0x27] @ '')'',
            errors = Undefined, operationName = Some ''Op''\<rparr>, Null)
   \<and> length (calls_made fresh (executePersistedQuery errors_host
         \<lparr>PersistedQueryOptions.operationName = Some ''Op'', sha256Hash = Some ''abc'', version = None,
          variables = None, headers = None, useAuth = None, retries = None\<rparr> fresh)) = 4"
proof -
  let ?po = "\<lparr>PersistedQueryOptions.operationName = Some ''Op'', sha256Hash = Some ''abc'', version = None,
          variables = None, headers = None, useAuth = None, retries = None\<rparr>"
  define url where "url = ''https://api.example'' @ ''?'' @ join ''&'' (map (\<lambda>(k, v). k @ ''='' @ v) (persisted_params errors_host ?po))"
  define fo where "fo = no_options\<lparr>FetchOptions.headers := Some (spread [(''Accept'', ''application/json'')] []),
       FetchOptions.useAuth := Some False, FetchOptions.retries := Some 3, throwOnError := Some False,
      method := Some ''GET'', parseJson := Some True\<rparr>"
  have re: "opt_retries fo = 3" "\<not> opt_throwOnError fo" 
    by (simp_all add: fo_def opt_retries_def opt_throwOnError_def)
  have t: "\<forall>i\<le>nat (opt_retries fo). throws_at errors_host url fo (length (calls fresh) + i)"
    by (simp add: throws_at_def fo_def persisted_errors_attempt)
  have "0 \<le> opt_retries fo" by (simp add: re)
  from fetch_all_throw[OF this t] re
  have F: "fst (internal_fetch errors_host url fo fresh) = Inr Null"
    "length (calls (snd (internal_fetch errors_host url fo fresh))) = 4"
    by (simp_all add: exhausted_def fresh_def)
  obtain r w1 where R: "internal_fetch errors_host url fo fresh = (r, w1)"
    by (cases "internal_fetch errors_host url fo fresh")
  with F have r: "r = Inr Null" "length (calls w1) = 4" by simp_all
  have G: "getJson errors_host url (persisted_fetch_options ?po) fresh = (Inr Null, w1)"
    using R r by (simp add: getJson_def fetchJson_def persisted_fetch_options_def fo_def no_options_def)
  have U: "getBaseUrl errors_host = Inr ''https://api.example''"
     "URLSearchParams_toString errors_host (persisted_params errors_host ?po) = Inr (join ''&'' (map (\<lambda>(k, v). k @ ''='' @ v) (persisted_params errors_host ?po)))"
    by (simp_all add: errors_host_def scripted_host_def)
  have E: "executePersistedQuery_try errors_host ?po fresh = (Inl (TypeError_read ''null'' ''data''), w1)"
    using G U by (simp add: executePersistedQuery_try_def url_def inspect_response_def)
  show ?thesis using E r(2)
    by (simp add: executePersistedQuery_def falsy_string_def string_of_def TypeError_read_def
        calls_made_def fresh_def)
qed

text \<open>
  The branch of \<open>executePersistedQuery\<close> for GraphQL-level errors would build the error the
  claim describes, if the payload reached it:
\<close>

lemma inspect_response_errors_payload:
  "inspect_response ''Op'' doc_errors =
     Inr (Some \<lparr>code = ''GQL_ERROR'', message = ''A, B'',
                errors = Array [Object [(''message'', Str ''A'')], Object [(''message'', Str ''B'')]],
                operationName = Some ''Op''\<rparr>,
          Object [(''x'', Number 1)])"
  by (simp add: inspect_response_def doc_errors_def array_join_def)

lemma retry_loop_result:
  "n = nat a \<Longrightarrow>
   (\<exists>i. fst (retry_loop h url options a le w) = attempt_at h url options i
        \<and> \<not> isl (attempt_at h url options i))
   \<or> (\<exists>le'. fst (retry_loop h url options a le w) = exhausted url options le')"
proof (induction n arbitrary: a le w)
  case 0
  then have "\<not> a > 0" by simp
  from loop_stop[OF this] show ?case by auto
next
  case (Suc n)
  then have a: "a > 0" "n = nat (a - 1)" by auto
  obtain r w1 where A: "attempt h url options w = (r, w1)" by (cases "attempt h url options w")
  show ?case
  proof (cases r)
    case (Inl e)
    from loop_retry[OF a(1) A[unfolded Inl]] Suc.IH[OF a(2)] show ?thesis by simp
  next
    case (Inr v)
    have at: "attempt_at h url options (length (calls w)) = Inr v"
      using attempt_fst[of h url options w] A Inr by simp
    have "fst (retry_loop h url options a le w) = Inr v"
      using loop_return[OF a(1) A[unfolded Inr]] by simp
    with at have "fst (retry_loop h url options a le w) = attempt_at h url options (length (calls w))
          \<and> \<not> isl (attempt_at h url options (length (calls w)))" by simp
    then show ?thesis by blast
  qed
qed

lemma attempt_json_value:
  "opt_parseJson options \<Longrightarrow> attempt_at h url options i = Inr v \<Longrightarrow>
   (v = Null \<and> \<not> opt_throwOnError options)
   \<or> (\<exists>resp errs. http h i (dispatch h url options) = Inr resp \<and> isOk resp
         \<and> JSON_parse h (body resp) = Inr v \<and> get_prop v ''errors'' = Inr errs \<and> \<not> truthy errs)"
  by (auto simp: attempt_at_def attempt_def transport_def split: sum.splits if_splits)

lemma fetch_json_value:
  assumes "opt_parseJson options" and "fst (internal_fetch h url options w) = Inr v"
  shows "(v = Null \<and> \<not> opt_throwOnError options)
   \<or> (\<exists>i resp errs. http h i (dispatch h url options) = Inr resp \<and> isOk resp
         \<and> JSON_parse h (body resp) = Inr v \<and> get_prop v ''errors'' = Inr errs \<and> \<not> truthy errs)"
proof -
  from retry_loop_result[OF refl, of h url options "opt_retries options + 1" None w]
  consider i where "fst (internal_fetch h url options w) = attempt_at h url options i"
    | le' where "fst (internal_fetch h url options w) = exhausted url options le'"
    by (auto simp: internal_fetch_def)
  then show ?thesis
  proof cases
    case 1
    with assms(2) have "attempt_at h url options i = Inr v" by simp
    from attempt_json_value[OF assms(1) this] show ?thesis by blast
  next
    case 2
    with assms(2) show ?thesis by (auto simp: exhausted_def split: if_splits)
  qed
qed

lemma get_prop_total: "get_prop v p = Inr x \<Longrightarrow> \<exists>y. get_prop v q = Inr y"
  by (cases v) auto

lemma inspect_no_error:
  assumes "v = Null \<or> (\<exists>errs. get_prop v ''errors'' = Inr errs \<and> \<not> truthy errs)"
    and "inspect_response opName v = Inr (e, d)"
  shows "e = None"
proof -
  from assms(1) show ?thesis
  proof
    assume "v = Null"
    with assms(2) show ?thesis by (simp add: inspect_response_def)
  next
    assume "\<exists>errs. get_prop v ''errors'' = Inr errs \<and> \<not> truthy errs"
    then obtain errs where e: "get_prop v ''errors'' = Inr errs" "\<not> truthy errs" by blast
    from get_prop_total[OF e(1)] obtain y where y: "get_prop v ''data'' = Inr y" by blast
    show ?thesis
    proof (cases "truthy v")
      case True
      with assms(2) e y show ?thesis by (simp add: inspect_response_def)
    next
      case False
      with assms(2) e y show ?thesis by (simp add: inspect_response_def)
    qed
  qed
qed

lemma persisted_error_shapes:
  assumes "fst (executePersistedQuery h options w) = (Some e, d)"
  shows "d = Null \<and> (code e = ''INVALID_PERSISTED_QUERY'' \<or> code e = ''EXCEPTION'')"
proof (cases "falsy_string (PersistedQueryOptions.operationName options) \<or> falsy_string (sha256Hash options)")
  case True
  with assms show ?thesis by (auto simp: executePersistedQuery_def)
next
  case False
  obtain r w1 where T: "executePersistedQuery_try h options w = (r, w1)"
    by (cases "executePersistedQuery_try h options w")
  show ?thesis
  proof (cases r)
    case (Inl err)
    with assms False T show ?thesis by (auto simp: executePersistedQuery_def)
  next
    case (Inr res)
    with assms False T have res: "res = (Some e, d)" by (auto simp: executePersistedQuery_def)
    from T Inr res obtain baseUrl qs v w2 where
      G: "getJson h (baseUrl @ ''?'' @ qs) (persisted_fetch_options options) w = (Inr v, w2)"
      and I: "inspect_response (string_of (PersistedQueryOptions.operationName options)) v = Inr (Some e, d)"
      by (auto simp: executePersistedQuery_try_def split: sum.splits prod.splits)
    from G have "fst (internal_fetch h (baseUrl @ ''?'' @ qs)
        (persisted_fetch_options options\<lparr>method := Some ''GET'',
           FetchOptions.headers := Some (spread [(''Accept'', ''application/json'')]
              (case FetchOptions.headers (persisted_fetch_options options) of None \<Rightarrow> [] | Some hs \<Rightarrow> hs)),
           parseJson := Some True\<rparr>) w) = Inr v"
      by (simp add: getJson_def fetchJson_def)
    from fetch_json_value[OF _ this]
    have "v = Null \<or> (\<exists>errs. get_prop v ''errors'' = Inr errs \<and> \<not> truthy errs)"
      by (auto simp: opt_parseJson_def)
    from inspect_no_error[OF this I] show ?thesis by simp
  qed
qed

lemma query_error_shapes:
  assumes "fst (executeQuery h options w) = (Some e, d)"
  shows "d = Null"
  using assms
  by (auto simp: executeQuery_def split: if_splits sum.splits prod.splits)

lemma fetch_nonok_null:
  assumes "\<not> opt_throwOnError options" and "0 \<le> opt_retries options"
    and "http h (length (calls w)) (dispatch h url options) = Inr resp" and "\<not> isOk resp"
  shows "fst (internal_fetch h url options w) = Inr Null"
proof -
  have v: "attempt_at h url options (length (calls w) + 0) = Inr Null"
    using nonok_returns_null[OF assms(1,3,4)] by simp
  have "0 < nat (opt_retries options + 1)" using assms(2) by simp
  from loop_success[OF this _ v, of None] show ?thesis by (simp add: internal_fetch_def)
qed

section \<open>The result pair\<close>

text \<open>
  C5. A standard query whose query string is absent or empty returns the error with code
  \<open>INVALID_QUERY\<close> (the spec's invalid-query), and a persisted query whose
  \<open>operationName\<close> or \<open>sha256Hash\<close> is absent or empty returns the error with code
  \<open>INVALID_PERSISTED_QUERY\<close>; in both cases the world is unchanged: no transport call is
  made.
\<close>

theorem fail_fast_no_transport:
  "(query options = None \<or> query options = Some [] \<longrightarrow>
      executeQuery h options w =
        ((Some \<lparr>code = ''INVALID_QUERY'', message = ''Query string is required'',
                 errors = Undefined, operationName = None\<rparr>, Null), w)
      \<and> calls_made w (executeQuery h options w) = [])
   \<and> (PersistedQueryOptions.operationName po = None \<or> PersistedQueryOptions.operationName po = Some []
        \<or> sha256Hash po = None \<or> sha256Hash po = Some [] \<longrightarrow>
      executePersistedQuery h po w =
        ((Some \<lparr>code = ''INVALID_PERSISTED_QUERY'',
                 message = ''operationName and sha256Hash are required'',
                 errors = Undefined, operationName = None\<rparr>, Null), w)
      \<and> calls_made w (executePersistedQuery h po w) = [])"
  by (auto simp: executeQuery_def executePersistedQuery_def falsy_string_def calls_made_def)

theorem fail_fast_no_transport_witness:
  "executeQuery flaky_host
     \<lparr>query = Some [], variables = None, headers = None, useAuth = None, endpoint = None,
      retries = None\<rparr> fresh =
     ((Some \<lparr>code = ''INVALID_QUERY'', message = ''Query string is required'',
              errors = Undefined, operationName = None\<rparr>, Null), fresh)
   \<and> executePersistedQuery flaky_host
     \<lparr>PersistedQueryOptions.operationName = Some ''Op'', sha256Hash = None, version = None,
      variables = None, headers = None, useAuth = None, retries = None\<rparr> fresh =
     ((Some \<lparr>code = ''INVALID_PERSISTED_QUERY'',
              message = ''operationName and sha256Hash are required'',
              errors = Undefined, operationName = None\<rparr>, Null), fresh)"
  using fail_fast_no_transport[of
     "\<lparr>query = Some [], variables = None, headers = None, useAuth = None, endpoint = None,
      retries = None\<rparr>"
     flaky_host fresh
     "\<lparr>PersistedQueryOptions.operationName = Some ''Op'', sha256Hash = None, version = None,
      variables = None, headers = None, useAuth = None, retries = None\<rparr>"]
  by simp

text \<open>
  C6. In every pair returned by \<open>executeQuery\<close> and by \<open>executePersistedQuery\<close>, a
  populated error slot comes with \<open>null\<close> in the data slot (so a pair with data has a
  \<open>null\<close> error slot).
\<close>

theorem error_excludes_data:
  "(fst (fst (executeQuery h options w)) \<noteq> None \<longrightarrow> snd (fst (executeQuery h options w)) = Null)
   \<and> (fst (fst (executePersistedQuery h po w)) \<noteq> None
        \<longrightarrow> snd (fst (executePersistedQuery h po w)) = Null)"
proof (intro conjI impI)
  assume "fst (fst (executeQuery h options w)) \<noteq> None"
  then obtain e d where "fst (executeQuery h options w) = (Some e, d)"
    by (cases "fst (executeQuery h options w)") auto
  with query_error_shapes[OF this] show "snd (fst (executeQuery h options w)) = Null" by simp
next
  assume "fst (fst (executePersistedQuery h po w)) \<noteq> None"
  then obtain e d where "fst (executePersistedQuery h po w) = (Some e, d)"
    by (cases "fst (executePersistedQuery h po w)") auto
  with persisted_error_shapes[OF this] show "snd (fst (executePersistedQuery h po w)) = Null" by simp
qed

theorem error_excludes_data_witness:
  "fst (fst (executePersistedQuery down_host
         \<lparr>PersistedQueryOptions.operationName = Some ''Op'', sha256Hash = Some ''abc'',
          version = None, variables = None, headers = None, useAuth = None, retries = None\<rparr>
         fresh)) \<noteq> None
   \<and> snd (fst (executePersistedQuery down_host
         \<lparr>PersistedQueryOptions.operationName = Some ''Op'', sha256Hash = Some ''abc'',
          version = None, variables = None, headers = None, useAuth = None, retries = None\<rparr>
         fresh)) = Null
   \<and> fst (fst (executeQuery down_host
         \<lparr>query = Some ''{viewer{id}}'', variables = None, headers = None, useAuth = None,
          endpoint = None, retries = Some 0\<rparr> fresh)) \<noteq> None
   \<and> snd (fst (executeQuery down_host
         \<lparr>query = Some ''{viewer{id}}'', variables = None, headers = None, useAuth = None,
          endpoint = None, retries = Some 0\<rparr> fresh)) = Null"
proof -
  let ?po = "\<lparr>PersistedQueryOptions.operationName = Some ''Op'', sha256Hash = Some ''abc'',
          version = None, variables = None, headers = None, useAuth = None, retries = None\<rparr>"
  let ?qo = "\<lparr>query = Some ''{viewer{id}}'', variables = None, headers = None, useAuth = None,
          endpoint = None, retries = Some 0\<rparr>"
  have p: "fst (fst (executePersistedQuery down_host ?po fresh)) \<noteq> None"
    by (simp add: executePersistedQuery_def executePersistedQuery_try_def falsy_string_def
        getJson_def fetchJson_def persisted_fetch_options_def run_simps down_host_def
        inspect_response_def Let_def)
  have q: "fst (fst (executeQuery down_host ?qo fresh)) \<noteq> None"
    by (simp add: executeQuery_def executeQuery_try_def falsy_string_def fetchGraphQL_def
        run_simps down_host_def toUpperCase_def upper_char_def Let_def)
  from error_excludes_data[of down_host ?qo fresh ?po] p q show ?thesis by simp
qed

text \<open>
  C10. When the GET of a persisted query (issued with \<open>throwOnError\<close> false) yields
  \<open>null\<close>, \<open>executePersistedQuery\<close> returns normally: reading \<open>data\<close> from \<open>null\<close> throws
  inside the \<open>try\<close> block, and the \<open>catch\<close> turns it into the error with code
  \<open>EXCEPTION\<close>, paired with \<open>null\<close> data.
\<close>

theorem persisted_null_is_exception:
  assumes "PersistedQueryOptions.operationName po = Some opName" and "opName \<noteq> []"
    and "sha256Hash po = Some hash" and "hash \<noteq> []"
    and "getBaseUrl h = Inr baseUrl"
    and "URLSearchParams_toString h (persisted_params h po) = Inr qs"
    and "fst (getJson h (baseUrl @ ''?'' @ qs) (persisted_fetch_options po) w) = Inr Null"
  shows "fst (executePersistedQuery h po w) =
           (Some \<lparr>code = ''EXCEPTION'',
                   message = ''Cannot read properties of null (reading ''
                             @ [CHR 0x27] @ ''data'' @ [CHR 0x27] @ '')'',
                   errors = Undefined, operationName = Some opName\<rparr>, Null)"
proof -
  obtain r w1 where G: "getJson h (baseUrl @ ''?'' @ qs) (persisted_fetch_options po) w = (r, w1)"
    by (cases "getJson h (baseUrl @ ''?'' @ qs) (persisted_fetch_options po) w")
  with assms(7) have r: "r = Inr Null" by simp
  have "executePersistedQuery_try h po w = (Inl (TypeError_read ''null'' ''data''), w1)"
    using assms(5,6) G r by (simp add: executePersistedQuery_try_def inspect_response_def)
  then show ?thesis
    using assms(1-4)
    by (simp add: executePersistedQuery_def falsy_string_def string_of_def TypeError_read_def)
qed

theorem persisted_null_is_exception_witness:
  "getBaseUrl down_host = Inr ''https://api.example''
   \<and> fst (getJson down_host
          (''https://api.example'' @ ''?'' @ join ''&'' (map (\<lambda>(k, v). k @ ''='' @ v)
             (persisted_params down_host
                \<lparr>PersistedQueryOptions.operationName = Some ''Op'', sha256Hash = Some ''abc'',
                 version = None, variables = None, headers = None, useAuth = None,
                 retries = None\<rparr>)))
          (persisted_fetch_options
             \<lparr>PersistedQueryOptions.operationName = Some ''Op'', sha256Hash = Some ''abc'',
              version = None, variables = None, headers = None, useAuth = None,
              retries = None\<rparr>) fresh) = Inr Null
   \<and> fst (executePersistedQuery down_host
         \<lparr>PersistedQueryOptions.operationName = Some ''Op'', sha256Hash = Some ''abc'',
          version = None, variables = None, headers = None, useAuth = None, retries = None\<rparr>
         fresh) =
       (Some \<lparr>code = ''EXCEPTION'',
               message = ''Cannot read properties of null (reading ''
                         @ [CHR 0x27] @ ''data'' @ [CHR 0x27] @ '')'',
               errors = Undefined, operationName = Some ''Op''\<rparr>, Null)"
proof -
  let ?po = "\<lparr>PersistedQueryOptions.operationName = Some ''Op'', sha256Hash = Some ''abc'',
          version = None, variables = None, headers = None, useAuth = None, retries = None\<rparr>"
  let ?qs = "join ''&'' (map (\<lambda>(k, v). k @ ''='' @ v) (persisted_params down_host ?po))"
  have a: "PersistedQueryOptions.operationName ?po = Some ''Op''" "''Op'' \<noteq> []"
    "sha256Hash ?po = Some ''abc''" "''abc'' \<noteq> []" by simp_all
  have b: "getBaseUrl down_host = Inr ''https://api.example''"
    by (simp add: down_host_def scripted_host_def)
  have u: "URLSearchParams_toString down_host (persisted_params down_host ?po) = Inr ?qs"
    by (simp add: down_host_def scripted_host_def)
  have t: "\<not> opt_throwOnError (persisted_fetch_options ?po)" "0 \<le> opt_retries (persisted_fetch_options ?po)"
    by (simp_all add: persisted_fetch_options_def opt_throwOnError_def opt_retries_def)
  have g: "fst (getJson down_host (''https://api.example'' @ ''?'' @ ?qs) (persisted_fetch_options ?po) fresh) = Inr Null"
    unfolding getJson_def fetchJson_def Let_def
    by (rule fetch_nonok_null[where resp = "\<lparr>isOk = False, code = 500, body = []\<rparr>"])
       (simp_all add: persisted_fetch_options_def opt_throwOnError_def opt_retries_def
          down_host_def scripted_host_def status_def)
  from persisted_null_is_exception[OF a b u g] b g show ?thesis by simp
qed

section \<open>What the transport receives\<close>

lemma retry_loop_calls:
  "n = nat a \<Longrightarrow>
   \<exists>m. calls (snd (retry_loop h url options a le w)) = calls w @ replicate m (dispatch h url options)"
proof (induction n arbitrary: a le w)
  case 0
  then have "\<not> a > 0" by simp
  from loop_stop[OF this] show ?case by simp
next
  case (Suc n)
  then have a: "a > 0" "n = nat (a - 1)" by auto
  obtain r w1 where A: "attempt h url options w = (r, w1)" by (cases "attempt h url options w")
  have c1: "calls w1 = calls w @ [dispatch h url options]"
    using attempt_calls[of h url options w] A by simp
  show ?case
  proof (cases r)
    case (Inl e)
    let ?w2 = "(if a - 1 > 0 \<and> opt_retryDelay options > 0 then busy_wait (opt_retryDelay options) w1 else w1)"
    have c2: "calls ?w2 = calls w @ [dispatch h url options]" using c1 by (simp add: busy_wait_def)
    from Suc.IH[OF a(2), of "Some e" ?w2] obtain m where
      "calls (snd (retry_loop h url options (a - 1) (Some e) ?w2)) = calls ?w2 @ replicate m (dispatch h url options)"
      by blast
    with loop_retry[OF a(1) A[unfolded Inl], of le] c2
    have "calls (snd (retry_loop h url options a le w)) = calls w @ replicate (Suc m) (dispatch h url options)"
      by simp
    then show ?thesis by blast
  next
    case (Inr v)
    from loop_return[OF a(1) A[unfolded Inr], of le] c1
    have "calls (snd (retry_loop h url options a le w)) = calls w @ replicate 1 (dispatch h url options)"
      by simp
    then show ?thesis by blast
  qed
qed

lemma fetch_calls_made:
  "\<exists>m. calls_made w (internal_fetch h url options w) = replicate m (dispatch h url options)"
  using retry_loop_calls[OF refl, of h url options "opt_retries options + 1" None w]
  by (auto simp: calls_made_def internal_fetch_def)

lemma upper_post: "toUpperCase ''post'' = ''POST''"
  by (simp add: toUpperCase_def upper_char_def)

text \<open>
  C7 (as the code has it). The body is the string itself when \<open>data\<close> is a string, the
  JSON encoding of \<open>data\<close> when \<open>data\<close> is any other truthy value, and the empty string
  when \<open>data\<close> is absent or falsy (\<open>null\<close>, \<open>undefined\<close>, \<open>false\<close>, \<open>0\<close>, the empty
  string). Every transport call of \<open>_fetch\<close> is the same call; it carries this body when
  the upper-cased method is not \<open>GET\<close>.
\<close>

theorem body_serialization:
  "let d = opt_data options; b = serialize_body h d
   in (data options = Undefined \<or> data options = Null \<longrightarrow> b = [])
      \<and> (\<forall>s. d = Str s \<longrightarrow> b = s)
      \<and> (truthy d \<and> (\<forall>s. d \<noteq> Str s) \<longrightarrow> b = JSON_stringify h d)
      \<and> (\<not> truthy d \<longrightarrow> b = [])
      \<and> (toUpperCase (opt_method options) = ''POST'' \<longrightarrow>
            dispatch h url options = POST url b (merged_headers h options) (opt_useAuth options))
      \<and> (toUpperCase (opt_method options) \<noteq> ''GET'' \<and> toUpperCase (opt_method options) \<noteq> ''POST'' \<longrightarrow>
            dispatch h url options =
              REQUEST (toUpperCase (opt_method options)) url b (merged_headers h options)
                (opt_useAuth options))
      \<and> (\<exists>m. calls_made w (internal_fetch h url options w) = replicate m (dispatch h url options))"
proof -
  have 1: "data options = Undefined \<or> data options = Null \<longrightarrow> serialize_body h (opt_data options) = []"
    by (auto simp: opt_data_def serialize_body_def)
  have 2: "\<forall>s. opt_data options = Str s \<longrightarrow> serialize_body h (opt_data options) = s"
    by (auto simp: serialize_body_def)
  have 3: "truthy (opt_data options) \<and> (\<forall>s. opt_data options \<noteq> Str s) \<longrightarrow>
           serialize_body h (opt_data options) = JSON_stringify h (opt_data options)"
    by (cases "opt_data options") (auto simp: serialize_body_def)
  have 4: "\<not> truthy (opt_data options) \<longrightarrow> serialize_body h (opt_data options) = []"
    by (simp add: serialize_body_def)
  have 5: "toUpperCase (opt_method options) = ''POST'' \<longrightarrow>
            dispatch h url options = POST url (serialize_body h (opt_data options)) (merged_headers h options) (opt_useAuth options)"
    by (simp add: dispatch_def)
  have 6: "toUpperCase (opt_method options) \<noteq> ''GET'' \<and> toUpperCase (opt_method options) \<noteq> ''POST'' \<longrightarrow>
            dispatch h url options =
              REQUEST (toUpperCase (opt_method options)) url (serialize_body h (opt_data options)) (merged_headers h options)
                (opt_useAuth options)"
    by (simp add: dispatch_def)
  from 1 2 3 4 5 6 fetch_calls_made[of w h url options] show ?thesis
    unfolding Let_def by blast
qed

text \<open>
  The claim as stated fails for a present, non-string body that is falsy: \<open>false\<close> is sent
  as the empty string, not as its JSON encoding.
\<close>

theorem body_serialization_counterexample:
  "opt_data (no_options\<lparr>method := Some ''post'', data := Bool False\<rparr>) = Bool False
   \<and> JSON_stringify flaky_host (Bool False) = ''false''
   \<and> serialize_body flaky_host (opt_data (no_options\<lparr>method := Some ''post'', data := Bool False\<rparr>)) = []
   \<and> dispatch flaky_host ''u'' (no_options\<lparr>method := Some ''post'', data := Bool False\<rparr>)
       = POST ''u'' [] [(''User-Agent'', ''D'')] False"
  by (simp add: opt_data_def no_options_def flaky_host_def scripted_host_def serialize_body_def
      dispatch_def opt_method_def upper_post merged_headers_def opt_customHeaders_def spread_def
      opt_useAuth_def)

theorem body_serialization_witness:
  "truthy (opt_data (no_options\<lparr>method := Some ''post'', data := doc_data\<rparr>))
   \<and> toUpperCase (opt_method (no_options\<lparr>method := Some ''post'', data := doc_data\<rparr>)) = ''POST''
   \<and> dispatch flaky_host ''u'' (no_options\<lparr>method := Some ''post'', data := doc_data\<rparr>)
       = POST ''u'' (render doc_data) [(''User-Agent'', ''D'')] False"
proof -
  let ?o = "no_options\<lparr>method := Some ''post'', data := doc_data\<rparr>"
  have d: "opt_data ?o = doc_data" by (simp add: opt_data_def doc_data_def)
  have t: "truthy (opt_data ?o)" "\<forall>s. opt_data ?o \<noteq> Str s" by (simp_all add: d) (simp_all add: doc_data_def)
  have m: "toUpperCase (opt_method ?o) = ''POST''" by (simp add: opt_method_def upper_post)
  have s: "JSON_stringify flaky_host (opt_data ?o) = render doc_data"
    by (simp add: d flaky_host_def scripted_host_def)
  have hd: "merged_headers flaky_host ?o = [(''User-Agent'', ''D'')]" "opt_useAuth ?o = False"
    by (simp_all add: merged_headers_def flaky_host_def scripted_host_def opt_customHeaders_def
        no_options_def spread_def opt_useAuth_def)
  from body_serialization[of ?o flaky_host "''u''" fresh, unfolded Let_def] t m
  have "dispatch flaky_host ''u'' ?o =
        POST ''u'' (JSON_stringify flaky_host (opt_data ?o)) (merged_headers flaky_host ?o) (opt_useAuth ?o)"
    by (metis (no_types, lifting))
  with s hd t m show ?thesis by simp
qed

section \<open>Headers\<close>

text \<open>An object has each property once; then a spread is the right-biased union of the maps.\<close>

lemma map_of_spread:
  "distinct (map fst b) \<Longrightarrow> map_of (spread a b) = map_of a ++ map_of b"
proof (induction b arbitrary: a)
  case Nil
  then show ?case by (simp add: spread_def)
next
  case (Cons p b)
  obtain k v where p: "p = (k, v)" by (cases p)
  from Cons.prems p have k: "k \<notin> fst ` set b" and d: "distinct (map fst b)" by auto
  have "map_of (spread a (p # b)) = map_of (spread (AList.update k v a) b)"
    by (simp add: spread_def p)
  also have "\<dots> = (map_of a)(k \<mapsto> v) ++ map_of b"
    by (simp only: Cons.IH[OF d] AList.update_conv')
  also have "\<dots> = map_of a ++ map_of (p # b)"
  proof (rule ext)
    fix x
    from k have "x = k \<Longrightarrow> map_of b x = None" by (simp add: map_of_eq_None_iff)
    then show "((map_of a)(k \<mapsto> v) ++ map_of b) x = (map_of a ++ map_of (p # b)) x"
      by (auto simp: p map_add_def split: option.splits)
  qed
  finally show ?case .
qed

lemma distinct_spread: "distinct (map fst a) \<Longrightarrow> distinct (map fst (spread a b))"
proof (induction b arbitrary: a)
  case Nil then show ?case by (simp add: spread_def)
next
  case (Cons p b)
  obtain k v where p: "p = (k, v)" by (cases p)
  have "distinct (map fst (AList.update k v a))" using Cons.prems by (simp add: distinct_update)
  from Cons.IH[OF this] show ?case by (simp add: spread_def p)
qed

lemma call_headers_dispatch: "call_headers (dispatch h url options) = merged_headers h options"
  by (simp add: dispatch_def Let_def)

lemma fetch_call_headers:
  "c \<in> set (calls_made w (internal_fetch h url options w)) \<Longrightarrow>
   call_headers c = merged_headers h options"
  using fetch_calls_made[of w h url options] by (auto simp: call_headers_dispatch)

lemma fetch_calls_nonempty:
  assumes "0 \<le> opt_retries options"
  shows "calls_made w (internal_fetch h url options w) \<noteq> []"
proof -
  let ?a = "opt_retries options + 1"
  have a: "?a > 0" using assms by simp
  obtain r w1 where A: "attempt h url options w = (r, w1)" by (cases "attempt h url options w")
  have c1: "calls w1 = calls w @ [dispatch h url options]"
    using attempt_calls[of h url options w] A by simp
  have "\<exists>m. calls (snd (retry_loop h url options ?a None w)) = calls w @ replicate (Suc m) (dispatch h url options)"
  proof (cases r)
    case (Inl e)
    let ?w2 = "(if ?a - 1 > 0 \<and> opt_retryDelay options > 0 then busy_wait (opt_retryDelay options) w1 else w1)"
    have c2: "calls ?w2 = calls w @ [dispatch h url options]" using c1 by (simp add: busy_wait_def)
    from retry_loop_calls[OF refl, of h url options "?a - 1" "Some e" ?w2] obtain m where
      "calls (snd (retry_loop h url options (?a - 1) (Some e) ?w2)) = calls ?w2 @ replicate m (dispatch h url options)"
      by blast
    with loop_retry[OF a A[unfolded Inl], of None] c2
    have "calls (snd (retry_loop h url options ?a None w)) = calls w @ replicate (Suc m) (dispatch h url options)"
      by simp
    then show ?thesis by blast
  next
    case (Inr v)
    from loop_return[OF a A[unfolded Inr], of None] c1
    have "calls (snd (retry_loop h url options ?a None w)) = calls w @ replicate (Suc 0) (dispatch h url options)"
      by simp
    then show ?thesis by blast
  qed
  then show ?thesis by (auto simp: calls_made_def internal_fetch_def)
qed

lemma fetch_call_is_dispatch:
  "c \<in> set (calls_made w (internal_fetch h url options w)) \<Longrightarrow> c = dispatch h url options"
  using fetch_calls_made[of w h url options] by auto

lemma merged_headers_map:
  "distinct (map fst (opt_customHeaders options)) \<Longrightarrow>
   map_of (merged_headers h options) =
     map_of (case defaultHeaders h of None \<Rightarrow> [] | Some d \<Rightarrow> d) ++ map_of (opt_customHeaders options)"
  by (simp add: merged_headers_def map_of_spread)

lemma upper_POST_id: "toUpperCase ''POST'' = ''POST''"
  by (simp add: toUpperCase_def upper_char_def)

lemma fetchJson_unfold:
  "fetchJson h url options w =
     internal_fetch h url
       (options\<lparr>FetchOptions.headers :=
                  Some (spread [(''Accept'', ''application/json'')] (opt_customHeaders options)),
                parseJson := Some True\<rparr>) w"
  by (simp add: fetchJson_def opt_customHeaders_def)

lemma getJson_unfold:
  "getJson h url options w =
     internal_fetch h url
       (options\<lparr>method := Some ''GET'',
                FetchOptions.headers :=
                  Some (spread [(''Accept'', ''application/json'')] (opt_customHeaders options)),
                parseJson := Some True\<rparr>) w"
  by (simp add: getJson_def fetchJson_def opt_customHeaders_def)

lemma postJson_unfold:
  "postJson h url d options w =
     internal_fetch h url
       (options\<lparr>FetchOptions.headers :=
                  Some (spread [(''Content-Type'', ''application/json'')] (opt_customHeaders options)),
                method := Some ''POST'', data := d,
                FetchOptions.headers :=
                  Some (spread [(''Accept'', ''application/json'')]
                         (spread [(''Content-Type'', ''application/json'')] (opt_customHeaders options))),
                parseJson := Some True\<rparr>) w"
  by (simp add: postJson_def fetchJson_def opt_customHeaders_def)

text \<open>
  C8. The header object that reaches the transport is the default header set overwritten
  by the caller's headers: a header the caller supplies arrives with the caller's value, a
  default header the caller does not supply arrives with its default value. The JSON
  variants put \<open>Accept: application/json\<close> (and \<open>postJson\<close> also
  \<open>Content-Type: application/json\<close>) between the two, so the caller's value wins over
  them as well. This holds for every transport call of \<open>_fetch\<close>, \<open>fetchJson\<close>,
  \<open>getJson\<close> (a GET call) and \<open>postJson\<close> (a POST call), and with \<open>retries \<ge> 0\<close> each of
  them makes at least one call.
\<close>

theorem caller_headers_win:
  assumes "distinct (map fst (opt_customHeaders options))"
  shows "let hs = opt_customHeaders options;
             D = (case defaultHeaders h of None \<Rightarrow> [] | Some x \<Rightarrow> x);
             A = [(''Accept'', ''application/json'')];
             T = [(''Content-Type'', ''application/json'')];
             plain = calls_made w (internal_fetch h url options w);
             fj = calls_made w (fetchJson h url options w);
             gj = calls_made w (getJson h url options w);
             pj = calls_made w (postJson h url d options w)
         in (\<forall>k v. map_of hs k = Some v \<longrightarrow>
               map_of (merged_headers h options) k = Some v
               \<and> (\<forall>c \<in> set plain. map_of (call_headers c) k = Some v)
               \<and> (\<forall>c \<in> set fj. map_of (call_headers c) k = Some v)
               \<and> (\<forall>c \<in> set gj. map_of (call_headers c) k = Some v)
               \<and> (\<forall>c \<in> set pj. map_of (call_headers c) k = Some v))
            \<and> (\<forall>k. map_of hs k = None \<longrightarrow>
                  map_of (merged_headers h options) k = map_of D k
                  \<and> (\<forall>c \<in> set plain. map_of (call_headers c) k = map_of D k))
            \<and> (\<forall>c \<in> set plain. map_of (call_headers c) = map_of D ++ map_of hs)
            \<and> (\<forall>c \<in> set fj. map_of (call_headers c) = map_of D ++ (map_of A ++ map_of hs))
            \<and> (\<forall>c \<in> set gj. map_of (call_headers c) = map_of D ++ (map_of A ++ map_of hs)
                  \<and> (\<exists>H. c = GET url H (opt_useAuth options)))
            \<and> (\<forall>c \<in> set pj. map_of (call_headers c) = map_of D ++ (map_of A ++ (map_of T ++ map_of hs))
                  \<and> (\<exists>b H. c = POST url b H (opt_useAuth options)))
            \<and> (0 \<le> opt_retries options \<longrightarrow> plain \<noteq> [] \<and> fj \<noteq> [] \<and> gj \<noteq> [] \<and> pj \<noteq> [])"
proof -
  define hs where "hs = opt_customHeaders options"
  define D where "D = (case defaultHeaders h of None \<Rightarrow> [] | Some x \<Rightarrow> x)"
  define A where "A = [(''Accept'', ''application/json'')]"
  define T where "T = [(''Content-Type'', ''application/json'')]"
  define o1 where "o1 = options\<lparr>FetchOptions.headers := Some (spread A hs), parseJson := Some True\<rparr>"
  define o2 where "o2 = options\<lparr>method := Some ''GET'', FetchOptions.headers := Some (spread A hs),
                                 parseJson := Some True\<rparr>"
  define o3 where "o3 = options\<lparr>FetchOptions.headers := Some (spread T hs), method := Some ''POST'', data := d,
                                 FetchOptions.headers := Some (spread A (spread T hs)),
                                 parseJson := Some True\<rparr>"
  define plain where "plain = calls_made w (internal_fetch h url options w)"
  define fj where "fj = calls_made w (fetchJson h url options w)"
  define gj where "gj = calls_made w (getJson h url options w)"
  define pj where "pj = calls_made w (postJson h url d options w)"
  have dhs: "distinct (map fst hs)" using assms by (simp add: hs_def)
  have dA: "distinct (map fst (spread A hs))" by (rule distinct_spread) (simp add: A_def)
  have dT: "distinct (map fst (spread T hs))" by (rule distinct_spread) (simp add: T_def)
  have dAT: "distinct (map fst (spread A (spread T hs)))" by (rule distinct_spread) (simp add: A_def)
  have fj: "fj = calls_made w (internal_fetch h url o1 w)"
    by (simp add: fj_def fetchJson_unfold o1_def A_def hs_def)
  have gj: "gj = calls_made w (internal_fetch h url o2 w)"
    by (simp add: gj_def getJson_unfold o2_def A_def hs_def)
  have pj: "pj = calls_made w (internal_fetch h url o3 w)"
    by (simp add: pj_def postJson_unfold o3_def A_def T_def hs_def)
  have c1: "opt_customHeaders o1 = spread A hs" "opt_customHeaders o2 = spread A hs"
    "opt_customHeaders o3 = spread A (spread T hs)"
    by (simp_all add: o1_def o2_def o3_def opt_customHeaders_def)
  have m0: "map_of (merged_headers h options) = map_of D ++ map_of hs"
    using merged_headers_map[OF assms] by (simp add: D_def hs_def)
  have m1: "map_of (merged_headers h o1) = map_of D ++ (map_of A ++ map_of hs)"
    using merged_headers_map[of o1 h] dA dhs by (simp add: c1 D_def map_of_spread)
  have m2: "map_of (merged_headers h o2) = map_of D ++ (map_of A ++ map_of hs)"
    using merged_headers_map[of o2 h] dA dhs by (simp add: c1 D_def map_of_spread)
  have m3: "map_of (merged_headers h o3) = map_of D ++ (map_of A ++ (map_of T ++ map_of hs))"
    using merged_headers_map[of o3 h] dAT dT dhs by (simp add: c1 D_def map_of_spread)
  have p0: "\<forall>c \<in> set plain. map_of (call_headers c) = map_of D ++ map_of hs"
    using fetch_call_headers[of _ w h url options] m0 by (simp add: plain_def)
  have p1: "\<forall>c \<in> set fj. map_of (call_headers c) = map_of D ++ (map_of A ++ map_of hs)"
    using fetch_call_headers[of _ w h url o1] m1 by (simp add: fj)
  have um: "toUpperCase (opt_method o2) = ''GET''" "toUpperCase (opt_method o3) = ''POST''"
    by (simp_all add: o2_def o3_def opt_method_def upper_GET upper_POST_id)
  have ua: "opt_useAuth o2 = opt_useAuth options" "opt_useAuth o3 = opt_useAuth options"
    by (simp_all add: o2_def o3_def opt_useAuth_def)
  have g2: "dispatch h url o2 = GET url (merged_headers h o2) (opt_useAuth options)"
    by (simp add: dispatch_def Let_def um ua)
  have g3: "dispatch h url o3 = POST url (serialize_body h (opt_data o3)) (merged_headers h o3) (opt_useAuth options)"
    by (simp add: dispatch_def Let_def um ua)
  have p2: "\<forall>c \<in> set gj. map_of (call_headers c) = map_of D ++ (map_of A ++ map_of hs)
                  \<and> (\<exists>H. c = GET url H (opt_useAuth options))"
    using fetch_call_headers[of _ w h url o2] fetch_call_is_dispatch[of _ w h url o2] m2 g2
    unfolding gj by auto
  have p3: "\<forall>c \<in> set pj. map_of (call_headers c) = map_of D ++ (map_of A ++ (map_of T ++ map_of hs))
                  \<and> (\<exists>b H. c = POST url b H (opt_useAuth options))"
    using fetch_call_headers[of _ w h url o3] fetch_call_is_dispatch[of _ w h url o3] m3 g3
    unfolding pj by auto
  have re: "opt_retries o1 = opt_retries options" "opt_retries o2 = opt_retries options"
    "opt_retries o3 = opt_retries options"
    by (simp_all add: o1_def o2_def o3_def opt_retries_def)
  have ne: "0 \<le> opt_retries options \<longrightarrow> plain \<noteq> [] \<and> fj \<noteq> [] \<and> gj \<noteq> [] \<and> pj \<noteq> []"
    using fetch_calls_nonempty[of options w h url] fetch_calls_nonempty[of o1 w h url]
      fetch_calls_nonempty[of o2 w h url] fetch_calls_nonempty[of o3 w h url]
    by (simp add: plain_def fj gj pj re)
  have win: "\<forall>k v. map_of hs k = Some v \<longrightarrow>
               map_of (merged_headers h options) k = Some v
               \<and> (\<forall>c \<in> set plain. map_of (call_headers c) k = Some v)
               \<and> (\<forall>c \<in> set fj. map_of (call_headers c) k = Some v)
               \<and> (\<forall>c \<in> set gj. map_of (call_headers c) k = Some v)
               \<and> (\<forall>c \<in> set pj. map_of (call_headers c) k = Some v)"
    using m0 p0 p1 p2 p3 by (simp add: map_add_Some_iff)
  have dflt: "\<forall>k. map_of hs k = None \<longrightarrow>
                  map_of (merged_headers h options) k = map_of D k
                  \<and> (\<forall>c \<in> set plain. map_of (call_headers c) k = map_of D k)"
    using m0 p0 by (simp add: map_add_def)
  from win dflt p0 p1 p2 p3 ne show ?thesis
    unfolding Let_def hs_def[symmetric] D_def[symmetric] A_def[symmetric] T_def[symmetric]
      plain_def[symmetric] fj_def[symmetric] gj_def[symmetric] pj_def[symmetric]
    by blast
qed

theorem caller_headers_win_witness:
  "defaultHeaders down_host = Some [(''User-Agent'', ''D'')]
   \<and> distinct (map fst (opt_customHeaders
        (no_options\<lparr>FetchOptions.headers := Some [(''User-Agent'', ''C'')],
                    FetchOptions.retries := Some 0\<rparr>)))
   \<and> calls_made fresh (getJson down_host ''u''
        (no_options\<lparr>FetchOptions.headers := Some [(''User-Agent'', ''C'')],
                    FetchOptions.retries := Some 0\<rparr>) fresh)
       = [GET ''u'' [(''User-Agent'', ''C''), (''Accept'', ''application/json'')] False]
   \<and> map_of (call_headers (GET ''u'' [(''User-Agent'', ''C''), (''Accept'', ''application/json'')] False))
        ''User-Agent'' = Some ''C''
   \<and> calls_made fresh (postJson down_host ''u'' doc_data
        (no_options\<lparr>FetchOptions.headers := Some [(''X-Token'', ''t'')],
                    FetchOptions.retries := Some 0\<rparr>) fresh)
       = [POST ''u'' (render doc_data)
            [(''User-Agent'', ''D''), (''Accept'', ''application/json''),
             (''Content-Type'', ''application/json''), (''X-Token'', ''t'')] False]
   \<and> map_of (call_headers (POST ''u'' (render doc_data)
            [(''User-Agent'', ''D''), (''Accept'', ''application/json''),
             (''Content-Type'', ''application/json''), (''X-Token'', ''t'')] False))
       = map_of [(''User-Agent'', ''D'')]
         ++ (map_of [(''Accept'', ''application/json'')]
             ++ (map_of [(''Content-Type'', ''application/json'')] ++ map_of [(''X-Token'', ''t'')]))
   \<and> calls_made fresh (postJson down_host ''u'' doc_data
        (no_options\<lparr>FetchOptions.headers := Some [(''Content-Type'', ''text/plain'')],
                    FetchOptions.retries := Some 0\<rparr>) fresh)
       = [POST ''u'' (render doc_data)
            [(''User-Agent'', ''D''), (''Accept'', ''application/json''),
             (''Content-Type'', ''text/plain'')] False]
   \<and> map_of (call_headers (POST ''u'' (render doc_data)
            [(''User-Agent'', ''D''), (''Accept'', ''application/json''),
             (''Content-Type'', ''text/plain'')] False)) ''Content-Type'' = Some ''text/plain''"
proof -
  define o1 where "o1 = no_options\<lparr>FetchOptions.headers := Some [(''User-Agent'', ''C'')],
                    FetchOptions.retries := Some 0\<rparr>"
  define o2 where "o2 = no_options\<lparr>FetchOptions.headers := Some [(''X-Token'', ''t'')],
                    FetchOptions.retries := Some 0\<rparr>"
  define o3 where "o3 = no_options\<lparr>FetchOptions.headers := Some [(''Content-Type'', ''text/plain'')],
                    FetchOptions.retries := Some 0\<rparr>"
  have hs: "opt_customHeaders o1 = [(''User-Agent'', ''C'')]" "opt_customHeaders o2 = [(''X-Token'', ''t'')]"
    "opt_customHeaders o3 = [(''Content-Type'', ''text/plain'')]"
    by (simp_all add: o1_def o2_def o3_def opt_customHeaders_def)
  have d: "distinct (map fst (opt_customHeaders o1))" "distinct (map fst (opt_customHeaders o2))"
    "distinct (map fst (opt_customHeaders o3))"
    by (simp_all add: hs)
  have dh: "defaultHeaders down_host = Some [(''User-Agent'', ''D'')]"
    by (simp add: down_host_def scripted_host_def)
  have c1: "calls_made fresh (getJson down_host ''u'' o1 fresh)
       = [GET ''u'' [(''User-Agent'', ''C''), (''Accept'', ''application/json'')] False]"
    by (simp add: o1_def getJson_def fetchJson_def run_simps down_host_def merged_headers_def
        opt_customHeaders_def opt_useAuth_def spread_def Let_def)
  have c2: "calls_made fresh (postJson down_host ''u'' doc_data o2 fresh)
       = [POST ''u'' (render doc_data)
            [(''User-Agent'', ''D''), (''Accept'', ''application/json''),
             (''Content-Type'', ''application/json''), (''X-Token'', ''t'')] False]"
    by (simp add: o2_def postJson_def fetchJson_def run_simps down_host_def merged_headers_def
        opt_customHeaders_def opt_useAuth_def spread_def Let_def upper_POST_id serialize_body_def
        opt_data_def doc_data_def)
  have c3: "calls_made fresh (postJson down_host ''u'' doc_data o3 fresh)
       = [POST ''u'' (render doc_data)
            [(''User-Agent'', ''D''), (''Accept'', ''application/json''),
             (''Content-Type'', ''text/plain'')] False]"
    by (simp add: o3_def postJson_def fetchJson_def run_simps down_host_def merged_headers_def
        opt_customHeaders_def opt_useAuth_def spread_def Let_def upper_POST_id serialize_body_def
        opt_data_def doc_data_def)
  have m3: "map_of (opt_customHeaders o3) ''Content-Type'' = Some ''text/plain''"
    and m1: "map_of (opt_customHeaders o1) ''User-Agent'' = Some ''C''"
    by (simp_all add: hs)
  from caller_headers_win[OF d(1), of down_host fresh "''u''" doc_data, unfolded Let_def] m1 c1
  have r1: "map_of (call_headers (GET ''u'' [(''User-Agent'', ''C''), (''Accept'', ''application/json'')] False))
        ''User-Agent'' = Some ''C''"
    by simp
  from caller_headers_win[OF d(2), of down_host fresh "''u''" doc_data, unfolded Let_def] c2
  have r2: "map_of (call_headers (POST ''u'' (render doc_data)
            [(''User-Agent'', ''D''), (''Accept'', ''application/json''),
             (''Content-Type'', ''application/json''), (''X-Token'', ''t'')] False))
       = map_of [(''User-Agent'', ''D'')]
         ++ (map_of [(''Accept'', ''application/json'')]
             ++ (map_of [(''Content-Type'', ''application/json'')] ++ map_of [(''X-Token'', ''t'')]))"
    by (simp add: dh hs)
  from caller_headers_win[OF d(3), of down_host fresh "''u''" doc_data, unfolded Let_def] m3 c3
  have r3: "map_of (call_headers (POST ''u'' (render doc_data)
            [(''User-Agent'', ''D''), (''Accept'', ''application/json''),
             (''Content-Type'', ''text/plain'')] False)) ''Content-Type'' = Some ''text/plain''"
    by simp
  from dh d(1) c1 r1 c2 r2 c3 r3 show ?thesis unfolding o1_def o2_def o3_def by blast
qed

section \<open>JSON and HTML parsing requested together\<close>

lemma attempt_parsed_json:
  "opt_parseJson options \<Longrightarrow> parsed (snd (attempt h url options w)) = parsed w"
  by (simp add: attempt_def transport_def split: sum.splits)

lemma retry_loop_parsed:
  "opt_parseJson options \<Longrightarrow> n = nat a \<Longrightarrow>
   parsed (snd (retry_loop h url options a le w)) = parsed w"
proof (induction n arbitrary: a le w)
  case 0
  then have "\<not> a > 0" by simp
  from loop_stop[OF this] show ?case by simp
next
  case (Suc n)
  then have a: "a > 0" "n = nat (a - 1)" by auto
  obtain r w1 where A: "attempt h url options w = (r, w1)" by (cases "attempt h url options w")
  have p1: "parsed w1 = parsed w" using attempt_parsed_json[OF Suc.prems(1), of h url w] A by simp
  show ?case
  proof (cases r)
    case (Inl e)
    let ?w2 = "(if a - 1 > 0 \<and> opt_retryDelay options > 0 then busy_wait (opt_retryDelay options) w1 else w1)"
    have "parsed ?w2 = parsed w" using p1 by (simp add: busy_wait_def)
    with Suc.IH[OF Suc.prems(1) a(2), of "Some e" ?w2] loop_retry[OF a(1) A[unfolded Inl], of le]
    show ?thesis by simp
  next
    case (Inr v)
    from loop_return[OF a(1) A[unfolded Inr], of le] p1 show ?thesis by simp
  qed
qed

lemma attempt_ignores_parseHtml:
  assumes "opt_parseJson options"
  shows "attempt h url (options\<lparr>parseHtml := b\<rparr>) w = attempt h url options w"
proof -
  have m: "merged_headers h (options\<lparr>parseHtml := b\<rparr>) = merged_headers h options"
    by (simp add: merged_headers_def opt_customHeaders_def)
  have u: "opt_useAuth (options\<lparr>parseHtml := b\<rparr>) = opt_useAuth options"
    by (simp add: opt_useAuth_def)
  have o: "opt_method (options\<lparr>parseHtml := b\<rparr>) = opt_method options"
    "opt_data (options\<lparr>parseHtml := b\<rparr>) = opt_data options"
    by (simp_all add: opt_method_def opt_data_def)
  have d: "dispatch h url (options\<lparr>parseHtml := b\<rparr>) = dispatch h url options"
    unfolding dispatch_def m u o by (rule refl)
  have t: "opt_throwOnError (options\<lparr>parseHtml := b\<rparr>) = opt_throwOnError options"
    by (simp add: opt_throwOnError_def)
  have j: "opt_parseJson (options\<lparr>parseHtml := b\<rparr>)"
    using assms by (simp add: opt_parseJson_def)
  show ?thesis using assms j by (auto simp: attempt_def d t split: prod.splits sum.splits)
qed

lemma retry_loop_ignores_parseHtml:
  "opt_parseJson options \<Longrightarrow> n = nat a \<Longrightarrow>
   retry_loop h url (options\<lparr>parseHtml := b\<rparr>) a le w = retry_loop h url options a le w"
proof (induction n arbitrary: a le w)
  case 0
  then have na: "\<not> a > 0" by simp
  show ?case
    by (simp add: loop_stop[OF na] exhausted_def opt_throwOnError_def opt_retries_def)
next
  case (Suc n)
  then have a: "a > 0" "n = nat (a - 1)" by auto
  have d: "opt_retryDelay (options\<lparr>parseHtml := b\<rparr>) = opt_retryDelay options"
    by (simp add: opt_retryDelay_def)
  obtain r w1 where A: "attempt h url options w = (r, w1)" by (cases "attempt h url options w")
  then have A': "attempt h url (options\<lparr>parseHtml := b\<rparr>) w = (r, w1)"
    using attempt_ignores_parseHtml[OF Suc.prems(1)] by simp
  show ?case
  proof (cases r)
    case (Inl e)
    from loop_retry[OF a(1) A[unfolded Inl], of le] loop_retry[OF a(1) A'[unfolded Inl], of le]
      Suc.IH[OF Suc.prems(1) a(2)] d
    show ?thesis by simp
  next
    case (Inr v)
    from loop_return[OF a(1) A[unfolded Inr], of le] loop_return[OF a(1) A'[unfolded Inr], of le]
    show ?thesis by simp
  qed
qed

lemma json_success_attempt:
  "opt_parseJson options \<Longrightarrow> http h i (dispatch h url options) = Inr resp \<Longrightarrow> isOk resp \<Longrightarrow>
   JSON_parse h (body resp) = Inr v \<Longrightarrow> get_prop v ''errors'' = Inr errs \<Longrightarrow> \<not> truthy errs \<Longrightarrow>
   attempt_at h url options i = Inr v"
  by (simp add: attempt_at_def attempt_def transport_def)

text \<open>
  C9. With \<open>parseJson\<close> and \<open>parseHtml\<close> both true, \<open>_fetch\<close> parses JSON: the DOM parser
  is never invoked, the run is the one \<open>parseHtml = false\<close> gives, an attempt whose
  response is OK and whose payload parses without a truthy \<open>errors\<close> field returns the
  parsed payload, and any value returned is such a parsed payload (or \<open>null\<close>, when
  \<open>throwOnError\<close> is false). With \<open>retries \<ge> 0\<close>, when the first attempt that does not
  throw gets such a response within the budget, \<open>_fetch\<close> returns the parsed payload.
\<close>

theorem json_takes_precedence:
  assumes "opt_parseJson options" and "opt_parseHtml options"
  shows "parses_made w (internal_fetch h url options w) = []
    \<and> internal_fetch h url options w = internal_fetch h url (options\<lparr>parseHtml := Some False\<rparr>) w
    \<and> (\<forall>i resp v errs.
          http h i (dispatch h url options) = Inr resp \<and> isOk resp
          \<and> JSON_parse h (body resp) = Inr v \<and> get_prop v ''errors'' = Inr errs \<and> \<not> truthy errs
          \<longrightarrow> attempt_at h url options i = Inr v)
    \<and> (\<forall>v. fst (internal_fetch h url options w) = Inr v \<longrightarrow>
          (v = Null \<and> \<not> opt_throwOnError options)
          \<or> (\<exists>i resp. http h i (dispatch h url options) = Inr resp \<and> isOk resp
                \<and> JSON_parse h (body resp) = Inr v))
    \<and> (0 \<le> opt_retries options \<longrightarrow>
        (\<forall>j resp v errs.
          j \<le> nat (opt_retries options)
          \<and> (\<forall>i<j. throws_at h url options (length (calls w) + i))
          \<and> http h (length (calls w) + j) (dispatch h url options) = Inr resp \<and> isOk resp
          \<and> JSON_parse h (body resp) = Inr v \<and> get_prop v ''errors'' = Inr errs \<and> \<not> truthy errs
          \<longrightarrow> fst (internal_fetch h url options w) = Inr v
              \<and> length (calls_made w (internal_fetch h url options w)) = j + 1))"
proof -
  have 1: "parses_made w (internal_fetch h url options w) = []"
    using retry_loop_parsed[OF assms(1) refl, of h url "opt_retries options + 1" None w]
    by (simp add: parses_made_def internal_fetch_def)
  have 2: "internal_fetch h url options w = internal_fetch h url (options\<lparr>parseHtml := Some False\<rparr>) w"
    using retry_loop_ignores_parseHtml[OF assms(1) refl, of h url "Some False" "opt_retries options + 1" None w]
    by (simp add: internal_fetch_def opt_retries_def)
  have 3: "\<forall>i resp v errs.
          http h i (dispatch h url options) = Inr resp \<and> isOk resp
          \<and> JSON_parse h (body resp) = Inr v \<and> get_prop v ''errors'' = Inr errs \<and> \<not> truthy errs
          \<longrightarrow> attempt_at h url options i = Inr v"
    using json_success_attempt[OF assms(1)] by blast
  have 4: "\<forall>v. fst (internal_fetch h url options w) = Inr v \<longrightarrow>
          (v = Null \<and> \<not> opt_throwOnError options)
          \<or> (\<exists>i resp. http h i (dispatch h url options) = Inr resp \<and> isOk resp
                \<and> JSON_parse h (body resp) = Inr v)"
    using fetch_json_value[OF assms(1)] by blast
  have 5: "0 \<le> opt_retries options \<longrightarrow>
        (\<forall>j resp v errs.
          j \<le> nat (opt_retries options)
          \<and> (\<forall>i<j. throws_at h url options (length (calls w) + i))
          \<and> http h (length (calls w) + j) (dispatch h url options) = Inr resp \<and> isOk resp
          \<and> JSON_parse h (body resp) = Inr v \<and> get_prop v ''errors'' = Inr errs \<and> \<not> truthy errs
          \<longrightarrow> fst (internal_fetch h url options w) = Inr v
              \<and> length (calls_made w (internal_fetch h url options w)) = j + 1)"
  proof (intro impI allI)
    fix j resp v errs
    assume r: "0 \<le> opt_retries options"
      and H: "j \<le> nat (opt_retries options)
          \<and> (\<forall>i<j. throws_at h url options (length (calls w) + i))
          \<and> http h (length (calls w) + j) (dispatch h url options) = Inr resp \<and> isOk resp
          \<and> JSON_parse h (body resp) = Inr v \<and> get_prop v ''errors'' = Inr errs \<and> \<not> truthy errs"
    from H have at: "attempt_at h url options (length (calls w) + j) = Inr v"
      using json_success_attempt[OF assms(1)] by blast
    from H have jn: "j \<le> nat (opt_retries options)" by blast
    have lt: "j < nat (opt_retries options + 1)" using r jn by linarith
    from H have t: "\<forall>i<j. throws_at h url options (length (calls w) + i)" by blast
    from loop_success[OF lt t at, of None]
    show "fst (internal_fetch h url options w) = Inr v
              \<and> length (calls_made w (internal_fetch h url options w)) = j + 1"
      by (simp add: internal_fetch_def calls_made_def)
  qed
  from 1 2 3 4 5 show ?thesis by blast
qed

theorem json_takes_precedence_witness:
  "opt_parseJson (no_options\<lparr>parseJson := Some True, parseHtml := Some True\<rparr>)
   \<and> opt_parseHtml (no_options\<lparr>parseJson := Some True, parseHtml := Some True\<rparr>)
   \<and> http data_host 0 (dispatch data_host ''u'' (no_options\<lparr>parseJson := Some True, parseHtml := Some True\<rparr>))
       = Inr \<lparr>isOk = True, code = 200, body = render doc_data\<rparr>
   \<and> attempt_at data_host ''u'' (no_options\<lparr>parseJson := Some True, parseHtml := Some True\<rparr>) 0 = Inr doc_data
   \<and> parses_made fresh (internal_fetch data_host ''u''
        (no_options\<lparr>parseJson := Some True, parseHtml := Some True\<rparr>) fresh) = []
   \<and> fst (internal_fetch data_host ''u''
        (no_options\<lparr>parseJson := Some True, parseHtml := Some True\<rparr>) fresh) = Inr doc_data
   \<and> length (calls_made fresh (internal_fetch data_host ''u''
        (no_options\<lparr>parseJson := Some True, parseHtml := Some True\<rparr>) fresh)) = 1"
proof -
  define opts where "opts = no_options\<lparr>parseJson := Some True, parseHtml := Some True\<rparr>"
  have j: "opt_parseJson opts" and t: "opt_parseHtml opts"
    by (simp_all add: opts_def opt_parseJson_def opt_parseHtml_def)
  have re: "0 \<le> opt_retries opts" "(0::nat) \<le> nat (opt_retries opts)"
    by (simp_all add: opts_def opt_retries_def no_options_def)
  have r: "http data_host 0 (dispatch data_host ''u'' opts) = Inr \<lparr>isOk = True, code = 200, body = render doc_data\<rparr>"
    by (simp add: data_host_def scripted_host_def status_def)
  have r': "http data_host (length (calls fresh) + 0) (dispatch data_host ''u'' opts) = Inr \<lparr>isOk = True, code = 200, body = render doc_data\<rparr>"
    using r by (simp add: fresh_def)
  have ok: "isOk \<lparr>isOk = True, code = 200, body = render doc_data\<rparr>" by simp
  have p: "JSON_parse data_host (body \<lparr>isOk = True, code = 200, body = render doc_data\<rparr>) = Inr doc_data"
    by (simp add: data_host_def scripted_host_def sample_parse_def doc_data_def doc_errors_def)
  have e: "get_prop doc_data ''errors'' = Inr Undefined" "\<not> truthy Undefined"
    by (simp_all add: doc_data_def)
  have nt: "\<forall>i<0::nat. throws_at data_host ''u'' opts (length (calls fresh) + i)" by simp
  note T = json_takes_precedence[OF j t, of fresh data_host "''u''"]
  from T r ok p e
  have a: "parses_made fresh (internal_fetch data_host ''u'' opts fresh) = []"
    and b: "attempt_at data_host ''u'' opts 0 = Inr doc_data"
    by blast+
  from T re have "\<forall>j resp v errs.
          j \<le> nat (opt_retries opts)
          \<and> (\<forall>i<j. throws_at data_host ''u'' opts (length (calls fresh) + i))
          \<and> http data_host (length (calls fresh) + j) (dispatch data_host ''u'' opts) = Inr resp \<and> isOk resp
          \<and> JSON_parse data_host (body resp) = Inr v \<and> get_prop v ''errors'' = Inr errs \<and> \<not> truthy errs
          \<longrightarrow> fst (internal_fetch data_host ''u'' opts fresh) = Inr v
              \<and> length (calls_made fresh (internal_fetch data_host ''u'' opts fresh)) = j + 1"
    by blast
  from this[rule_format, of 0 "\<lparr>isOk = True, code = 200, body = render doc_data\<rparr>" doc_data Undefined]
    re nt r' ok p e
  have c: "fst (internal_fetch data_host ''u'' opts fresh) = Inr doc_data
     \<and> length (calls_made fresh (internal_fetch data_host ''u'' opts fresh)) = 1"
    by simp
  from j t r a b c show ?thesis unfolding opts_def by blast
qed

end
